theory Spec2Isabelle
  imports Complex_Main "HOL-Library.Word"
begin

section \<open>MoodFlix: emotion stabilisation, fetch orchestration and scan session\<close>

text \<open>
  The development embeds the coordination core of the application: the expression
  mapping and keyword table of \<^verbatim>\<open>lib/emotionMapping.ts\<close>, the handlers of the
  \<^verbatim>\<open>Home\<close> page component (its React state cells, its refs, the timers it
  registers with the JavaScript runtime and the search requests it issues), and of
  \<^verbatim>\<open>components/CameraFeed.tsx\<close> the mounting of the feed and the stream it holds.

  Conventions of the embedding.
  \<^item> A JavaScript string is its list of UTF-16 code units.
  \<^item> Scores, confidences and the literals \<^verbatim>\<open>0.9\<close> and \<^verbatim>\<open>0.3\<close> are real
    numbers; rounding of the floating-point sum and \<^verbatim>\<open>NaN\<close> are not represented.
  \<^item> Time is an integer number of milliseconds; every handler that reads
    \<^verbatim>\<open>Date.now()\<close> or registers a timer takes the current time as \<open>now\<close>.
  \<^item> A state setter is applied at once; an updater function passed to a setter is
    applied to the current value of its cell. The one updater that can throw, that of
    \<^verbatim>\<open>setVideos\<close>, throws when React renders, outside the code that called the setter.
\<close>

subsection \<open>Strings\<close>

type_synonym jsstring = "16 word list"

definition js :: "string \<Rightarrow> jsstring" where
  "js s = map of_char s"

text \<open>White space and line terminators, the code units that \<^verbatim>\<open>String.prototype.trim\<close> strips.\<close>

definition isWhiteSpace :: "16 word \<Rightarrow> bool" where
  "isWhiteSpace c \<longleftrightarrow>
     c \<in> {0x0009, 0x000A, 0x000B, 0x000C, 0x000D, 0x0020, 0x00A0, 0x1680,
          0x2000, 0x2001, 0x2002, 0x2003, 0x2004, 0x2005, 0x2006, 0x2007,
          0x2008, 0x2009, 0x200A, 0x2028, 0x2029, 0x202F, 0x205F, 0x3000, 0xFEFF}"

definition trim :: "jsstring \<Rightarrow> jsstring" where
  "trim s = rev (dropWhile isWhiteSpace (rev (dropWhile isWhiteSpace s)))"

text \<open>
  A string is well formed when it has no lone surrogate: every high surrogate is followed
  by a low one and no low surrogate stands elsewhere. \<^verbatim>\<open>encodeURIComponent\<close> throws a
  URIError exactly on the strings that are not well formed.
\<close>

definition isHighSurrogate :: "16 word \<Rightarrow> bool" where
  "isHighSurrogate c \<longleftrightarrow> 0xD800 \<le> c \<and> c \<le> 0xDBFF"

definition isLowSurrogate :: "16 word \<Rightarrow> bool" where
  "isLowSurrogate c \<longleftrightarrow> 0xDC00 \<le> c \<and> c \<le> 0xDFFF"

fun isWellFormed :: "jsstring \<Rightarrow> bool" where
  "isWellFormed [] = True"
| "isWellFormed [c] = (\<not> isHighSurrogate c \<and> \<not> isLowSurrogate c)"
| "isWellFormed (c # d # cs) =
     (if isHighSurrogate c then isLowSurrogate d \<and> isWellFormed cs
      else \<not> isLowSurrogate c \<and> isWellFormed (d # cs))"

subsection \<open>Emotions, keyword table and expression mapping (lib/emotionMapping.ts)\<close>

datatype Emotion = Happy | Sad | Neutral | Surprised

text \<open>The display-only fields \<^verbatim>\<open>emoji\<close> and \<^verbatim>\<open>description\<close> are left out.\<close>

record EmotionConfig =
  label :: jsstring
  color :: jsstring
  keywords' :: "jsstring list"

fun emotionMapping :: "Emotion \<Rightarrow> EmotionConfig" where
  "emotionMapping Happy = \<lparr>label = js ''Happy'', color = js ''var(--color-happy)'',
     keywords' = [js ''romantic hindi songs 2024'', js ''bengali romantic songs'',
       js ''bollywood romantic songs'', js ''bangla romantic songs'', js ''hindi love songs'',
       js ''arijit singh romantic songs'', js ''bengali love songs'',
       js ''hindi romantic hits'', js ''bangla love songs 2024'']\<rparr>"
| "emotionMapping Sad = \<lparr>label = js ''Sad'', color = js ''var(--color-sad)'',
     keywords' = [js ''sad hindi songs 2024'', js ''bengali sad songs'',
       js ''bollywood sad songs'', js ''bangla sad songs'', js ''hindi heartbreak songs'',
       js ''arijit singh sad songs'', js ''bengali emotional songs'',
       js ''hindi sad music'', js ''bangla heartbreak songs'']\<rparr>"
| "emotionMapping Neutral = \<lparr>label = js ''Neutral'', color = js ''var(--color-neutral)'',
     keywords' = [js ''hindi romantic songs mix'', js ''bengali mix songs'',
       js ''bollywood hits 2024'', js ''bangla popular songs'', js ''hindi top songs'',
       js ''bollywood party songs'', js ''bengali trending songs'',
       js ''hindi mix playlist'', js ''bangla best songs'']\<rparr>"
| "emotionMapping Surprised = \<lparr>label = js ''Surprised'', color = js ''var(--color-surprised)'',
     keywords' = [js ''hindi romantic songs mix'', js ''bengali mix songs'',
       js ''bollywood hits 2024'', js ''bangla popular songs'', js ''hindi top songs'',
       js ''bollywood party songs'', js ''bengali trending songs'',
       js ''hindi mix playlist'', js ''bangla best songs'']\<rparr>"

text \<open>
  \<^verbatim>\<open>keywords[Math.floor(Math.random() * keywords.length)]\<close>: the random draw is an
  index below the length of the list. The environment supplies it as \<open>rnd\<close>, taken
  modulo the length.
\<close>

definition getRandomKeyword :: "nat \<Rightarrow> Emotion \<Rightarrow> jsstring" where
  "getRandomKeyword rnd emotion =
     (let ks = keywords' (emotionMapping emotion) in ks ! (rnd mod length ks))"

record expressions =
  happy :: real
  sad :: real
  neutral :: real
  surprised :: real
  angry :: real
  fearful :: real
  disgusted :: real

text \<open>The entries of \<^verbatim>\<open>relevantExpressions\<close>, in the order \<^verbatim>\<open>Object.entries\<close> lists them.\<close>

definition relevantExpressions :: "expressions \<Rightarrow> (Emotion \<times> real) list" where
  "relevantExpressions ex =
     [(Happy, happy ex), (Sad, sad ex), (Neutral, neutral ex + surprised ex)]"

text \<open>One iteration of the \<^verbatim>\<open>for\<close> loop, on the pair \<open>(maxEmotion, maxScore)\<close>.\<close>

definition maxStep :: "Emotion \<times> real \<Rightarrow> Emotion \<times> real \<Rightarrow> Emotion \<times> real" where
  "maxStep acc entry = (if snd entry > snd acc then entry else acc)"

definition mapExpressionToEmotion :: "expressions \<Rightarrow> Emotion" where
  "mapExpressionToEmotion ex =
     (let (maxEmotion, maxScore) = foldl maxStep (Neutral, 0) (relevantExpressions ex)
      in if maxScore < 0.3 then Neutral else maxEmotion)"

subsection \<open>Videos and the accumulating merge (lib/types.ts, fetchVideos)\<close>

record YouTubeVideo =
  id' :: jsstring
  title :: jsstring
  thumbnail :: jsstring
  channelTitle :: "jsstring option"

text \<open>The updater passed to \<^verbatim>\<open>setVideos\<close>, applied to the response's \<^verbatim>\<open>data.videos\<close>.\<close>

definition mergeVideos :: "YouTubeVideo list \<Rightarrow> YouTubeVideo list \<Rightarrow> YouTubeVideo list" where
  "mergeVideos prevVideos dataVideos =
     (let existingIds = set (map id' prevVideos);
          newVideos = filter (\<lambda>v. id' v \<notin> existingIds) dataVideos
      in prevVideos @ newVideos)"

subsection \<open>Timers of the runtime and search requests\<close>

text \<open>
  A callback registered by the component: the closure given to \<^verbatim>\<open>setTimeout\<close> in
  \<^verbatim>\<open>handleEmotionDetected\<close> (it captures the emotion) or the one given to
  \<^verbatim>\<open>setInterval\<close> in \<^verbatim>\<open>startCountdown\<close>.
\<close>

datatype callback = EmotionFetch Emotion | CountdownTick

text \<open>A pending timer; \<open>period\<close> is \<open>None\<close> for a timeout and the delay for an interval.\<close>

record timer =
  handle :: nat
  due :: int
  period :: "int option"
  callback :: callback

text \<open>A search request sent to \<^verbatim>\<open>/api/youtube\<close>, with the call site that issued it.\<close>

datatype trigger = Stabilized Emotion | Manual

record request =
  keyword :: jsstring
  issuedAt :: int
  origin :: trigger

text \<open>
  How an issued request ends: \<^verbatim>\<open>fetch\<close> rejects (network failure), or
  \<^verbatim>\<open>response.json()\<close> rejects (the body is not JSON), each with the thrown Error's
  message or \<open>None\<close> for a value that is not an Error; or the status is not 2xx, with
  the payload's \<^verbatim>\<open>error\<close> field; or the status is 2xx and the payload has a
  \<^verbatim>\<open>videos\<close> array of items; or the status is 2xx and the JSON is of another shape
  (\<^verbatim>\<open>null\<close>, no \<^verbatim>\<open>videos\<close> array, a \<^verbatim>\<open>null\<close> item), so that evaluating
  \<^verbatim>\<open>data.videos.filter(...)\<close> throws a TypeError.
\<close>

datatype fetch_outcome =
    FetchRejected "jsstring option"
  | JsonRejected "jsstring option"
  | NotOk "jsstring option"
  | Success "YouTubeVideo list"
  | Malformed

subsection \<open>The Home component: state cells, refs, runtime\<close>

text \<open>
  The cells of \<^verbatim>\<open>useState\<close> and \<^verbatim>\<open>useRef\<close> of the component (but
  \<^verbatim>\<open>selectedVideo\<close>, which no handler of the core reads), then the runtime's
  pending timers, the next timer handle, the log of requests issued, and whether React
  still has the component mounted.
\<close>

record home =
  showConsent :: bool
  cameraActive :: bool
  cameraError :: "jsstring option"
  isScanning :: bool
  scanCountdown :: int
  currentEmotion :: "Emotion option"
  searchKeyword :: "jsstring option"
  lastSearchedEmotion :: "Emotion option"
  videos :: "YouTubeVideo list"
  isLoadingVideos :: bool
  videoError :: "jsstring option"
  hasLoadedVideos :: bool
  searchQuery :: jsstring
  emotionTimerRef :: "nat option"
  countdownTimerRef :: "nat option"
  stableEmotionRef :: "Emotion option"
  stableCountRef :: nat
  lastFetchTimeRef :: int
  pending :: "timer list"
  nextHandle :: nat
  requests :: "request list"
  mounted :: bool

text \<open>The component as mounted; timer handles of a browser start at 1.\<close>

definition initial :: home where
  "initial = \<lparr>showConsent = True, cameraActive = False, cameraError = None,
     isScanning = False, scanCountdown = 0, currentEmotion = None, searchKeyword = None,
     lastSearchedEmotion = None, videos = [], isLoadingVideos = False, videoError = None,
     hasLoadedVideos = False, searchQuery = [], emotionTimerRef = None,
     countdownTimerRef = None, stableEmotionRef = None, stableCountRef = 0,
     lastFetchTimeRef = 0, pending = [], nextHandle = 1, requests = [], mounted = True\<rparr>"

text \<open>\<^verbatim>\<open>setTimeout\<close> and \<^verbatim>\<open>setInterval\<close>: a fresh handle and a new pending timer.\<close>

definition setTimeout :: "callback \<Rightarrow> int \<Rightarrow> int \<Rightarrow> home \<Rightarrow> nat \<times> home" where
  "setTimeout cb delay now s =
     (nextHandle s,
      s\<lparr>pending := pending s @ [\<lparr>handle = nextHandle s, due = now + delay,
                                   period = None, callback = cb\<rparr>],
        nextHandle := nextHandle s + 1\<rparr>)"

definition setInterval :: "callback \<Rightarrow> int \<Rightarrow> int \<Rightarrow> home \<Rightarrow> nat \<times> home" where
  "setInterval cb delay now s =
     (nextHandle s,
      s\<lparr>pending := pending s @ [\<lparr>handle = nextHandle s, due = now + delay,
                                   period = Some delay, callback = cb\<rparr>],
        nextHandle := nextHandle s + 1\<rparr>)"

text \<open>
  \<^verbatim>\<open>clearTimeout\<close> and \<^verbatim>\<open>clearInterval\<close> (one pool of handles): the timer
  with the handle is no longer pending; a handle that is not pending is ignored.
\<close>

definition clearTimer :: "nat \<Rightarrow> home \<Rightarrow> home" where
  "clearTimer h s = s\<lparr>pending := filter (\<lambda>t. handle t \<noteq> h) (pending s)\<rparr>"

text \<open>\<^verbatim>\<open>if (ref.current) clearTimeout(ref.current)\<close>, for either ref.\<close>

definition clearIfSet :: "nat option \<Rightarrow> home \<Rightarrow> home" where
  "clearIfSet r s = (case r of None \<Rightarrow> s | Some h \<Rightarrow> clearTimer h s)"

text \<open>The cleanup of the component's \<^verbatim>\<open>useEffect\<close>, which React runs when it unmounts it.\<close>

definition unmount :: "home \<Rightarrow> home" where
  "unmount s = (let s1 = clearIfSet (emotionTimerRef s) s in clearIfSet (countdownTimerRef s1) s1)"

definition unmounted :: "home \<Rightarrow> home" where
  "unmounted s = (unmount s)\<lparr>mounted := False\<rparr>"

subsection \<open>fetchVideos\<close>

definition failedToFetch :: jsstring where
  "failedToFetch = js ''Failed to fetch videos''"

text \<open>The message of the URIError of \<^verbatim>\<open>encodeURIComponent\<close>, as V8 words it.\<close>

definition uriMalformed :: jsstring where
  "uriMalformed = js ''URI malformed''"

text \<open>\<^verbatim>\<open>error instanceof Error ? error.message : 'Failed to fetch videos'\<close>\<close>

definition caughtMessage :: "jsstring option \<Rightarrow> jsstring" where
  "caughtMessage thrown = (case thrown of Some m \<Rightarrow> m | None \<Rightarrow> failedToFetch)"

text \<open>
  The part of \<^verbatim>\<open>fetchVideos\<close> before the first \<^verbatim>\<open>await\<close>: two setters, then inside
  the \<^verbatim>\<open>try\<close> the URL is built and the request sent. When the keyword is not well
  formed, \<^verbatim>\<open>encodeURIComponent\<close> throws before \<^verbatim>\<open>fetch\<close> is called: no request is
  sent, and \<^verbatim>\<open>catch\<close> and \<^verbatim>\<open>finally\<close> run at once. The time and the call site are
  recorded with a request.
\<close>

definition fetchVideos :: "int \<Rightarrow> trigger \<Rightarrow> jsstring \<Rightarrow> home \<Rightarrow> home" where
  "fetchVideos now by kw s =
     (let s1 = s\<lparr>isLoadingVideos := True, videoError := None\<rparr>
      in if isWellFormed kw
         then s1\<lparr>requests := requests s1 @ [\<lparr>keyword = kw, issuedAt = now, origin = by\<rparr>]\<rparr>
         else s1\<lparr>videoError := Some (caughtMessage (Some uriMalformed)),
                 isLoadingVideos := False\<rparr>)"

text \<open>\<^verbatim>\<open>new Error(data.error || 'Failed to fetch videos')\<close>: an absent or empty field is falsy.\<close>

definition notOkMessage :: "jsstring option \<Rightarrow> jsstring" where
  "notOkMessage e = (case e of None \<Rightarrow> failedToFetch
                      | Some m \<Rightarrow> if m = [] then failedToFetch else m)"

text \<open>
  The rest of \<^verbatim>\<open>fetchVideos\<close>, run when the request ends: try, catch, finally. On a
  malformed 2xx payload nothing throws inside the \<^verbatim>\<open>try\<close>: the updater handed to
  \<^verbatim>\<open>setVideos\<close> is the code that reads \<^verbatim>\<open>data.videos\<close>, and React runs it when it
  renders. There it throws, the render is never committed (so the setters that followed
  show nothing), and React unmounts the component.
\<close>

fun fetchVideosDone :: "fetch_outcome \<Rightarrow> home \<Rightarrow> home" where
  "fetchVideosDone (Success vs) s =
     s\<lparr>videos := mergeVideos (videos s) vs, hasLoadedVideos := True,
       isLoadingVideos := False\<rparr>"
| "fetchVideosDone (NotOk e) s =
     s\<lparr>videoError := Some (caughtMessage (Some (notOkMessage e))), isLoadingVideos := False\<rparr>"
| "fetchVideosDone (FetchRejected thrown) s =
     s\<lparr>videoError := Some (caughtMessage thrown), isLoadingVideos := False\<rparr>"
| "fetchVideosDone (JsonRejected thrown) s =
     s\<lparr>videoError := Some (caughtMessage thrown), isLoadingVideos := False\<rparr>"
| "fetchVideosDone Malformed s = unmounted s"

subsection \<open>handleEmotionDetected and its debounced callback\<close>

definition handleEmotionDetected :: "int \<Rightarrow> Emotion \<Rightarrow> real \<Rightarrow> home \<Rightarrow> home" where
  "handleEmotionDetected now emotion confidence s =
     (if confidence < 0.9 then s
      else
        let s1 = (if Some emotion = stableEmotionRef s
                  then s\<lparr>stableCountRef := stableCountRef s + 1\<rparr>
                  else s\<lparr>stableEmotionRef := Some emotion, stableCountRef := 1\<rparr>)
        in if stableCountRef s1 < 2 then s1
           else
             let s2 = s1\<lparr>currentEmotion := Some emotion\<rparr>
             in if now - lastFetchTimeRef s2 < 3000 then s2
                else
                  let s3 = clearIfSet (emotionTimerRef s2) s2;
                      (h, s4) = setTimeout (EmotionFetch emotion) 300 now s3
                  in s4\<lparr>emotionTimerRef := Some h\<rparr>)"

text \<open>The closure of the timeout, run by the runtime at time \<open>now\<close> with a random draw.\<close>

definition emotionTimerCallback :: "int \<Rightarrow> nat \<Rightarrow> Emotion \<Rightarrow> home \<Rightarrow> home" where
  "emotionTimerCallback now rnd emotion s =
     (let kw = getRandomKeyword rnd emotion;
          s1 = s\<lparr>searchKeyword := Some kw\<rparr>;
          s2 = fetchVideos now (Stabilized emotion) kw s1
      in s2\<lparr>lastSearchedEmotion := Some emotion, lastFetchTimeRef := now\<rparr>)"

subsection \<open>The scan session: consent, countdown, stop, error, restart, search, unmount\<close>

text \<open>The updater of the interval's callback, with the setters and the clear it performs.\<close>

definition countdownTick :: "home \<Rightarrow> home" where
  "countdownTick s =
     (if scanCountdown s \<le> 1
      then (clearIfSet (countdownTimerRef s) s)
             \<lparr>cameraActive := False, isScanning := False, scanCountdown := 0\<rparr>
      else s\<lparr>scanCountdown := scanCountdown s - 1\<rparr>)"

definition SCAN_DURATION :: int where
  "SCAN_DURATION = 5"

definition startCountdown :: "int \<Rightarrow> home \<Rightarrow> home" where
  "startCountdown now s =
     (let s1 = s\<lparr>scanCountdown := SCAN_DURATION\<rparr>;
          s2 = clearIfSet (countdownTimerRef s1) s1;
          (h, s3) = setInterval CountdownTick 1000 now s2
      in s3\<lparr>countdownTimerRef := Some h\<rparr>)"

definition handleAcceptConsent :: "int \<Rightarrow> home \<Rightarrow> home" where
  "handleAcceptConsent now s =
     startCountdown now (s\<lparr>showConsent := False, cameraActive := True, isScanning := True\<rparr>)"

definition handleDeclineConsent :: "home \<Rightarrow> home" where
  "handleDeclineConsent s =
     s\<lparr>showConsent := False,
       cameraError := Some (js ''Camera access was declined. You can refresh the page to try again.'')\<rparr>"

definition handleCameraStop :: "home \<Rightarrow> home" where
  "handleCameraStop s =
     (let s1 = s\<lparr>cameraActive := False, isScanning := False\<rparr>;
          s2 = clearIfSet (emotionTimerRef s1) s1
      in clearIfSet (countdownTimerRef s2) s2)"

definition handleCameraError :: "jsstring \<Rightarrow> home \<Rightarrow> home" where
  "handleCameraError err s =
     s\<lparr>cameraError := Some err, cameraActive := False, isScanning := False\<rparr>"

definition handleScanAgain :: "int \<Rightarrow> home \<Rightarrow> home" where
  "handleScanAgain now s =
     startCountdown now
       (s\<lparr>cameraError := None, cameraActive := True, isScanning := True,
          currentEmotion := None, searchKeyword := None, videos := [],
          hasLoadedVideos := False, lastSearchedEmotion := None,
          stableEmotionRef := None, stableCountRef := 0, lastFetchTimeRef := 0\<rparr>)"

definition handleSearch :: "int \<Rightarrow> home \<Rightarrow> home" where
  "handleSearch now s =
     (if trim (searchQuery s) \<noteq> []
      then
        let s1 = s\<lparr>searchKeyword := Some (trim (searchQuery s)), currentEmotion := None\<rparr>;
            s2 = fetchVideos now Manual (trim (searchQuery s)) s1
        in if cameraActive s
           then clearIfSet (countdownTimerRef s2) (s2\<lparr>cameraActive := False, isScanning := False\<rparr>)
           else s2
      else s)"

subsection \<open>Events and runs\<close>

text \<open>
  What can happen to the mounted component: a click, a keystroke in the search box, a
  submit, a detection delivered by the camera feed, a request ending, the runtime
  running a timer (with the random draw its callback will read).
\<close>

datatype event =
    AcceptConsent
  | DeclineConsent
  | EmotionDetected Emotion real
  | TimerFired nat nat
  | FetchCompleted fetch_outcome
  | CameraStop
  | CameraError jsstring
  | ScanAgain
  | QueryChanged jsstring
  | SearchSubmitted
  | Unmount

text \<open>
  The runtime runs the timer with handle \<open>h\<close> only when it is pending and due; a timeout
  is then no longer pending, an interval is due again one period later.
\<close>

definition reschedule :: "timer \<Rightarrow> home \<Rightarrow> home" where
  "reschedule t s =
     (case period t of
        None \<Rightarrow> clearTimer (handle t) s
      | Some p \<Rightarrow>
          s\<lparr>pending := map (\<lambda>u. if handle u = handle t then u\<lparr>due := due u + p\<rparr> else u)
                         (pending s)\<rparr>)"

definition runCallback :: "int \<Rightarrow> nat \<Rightarrow> callback \<Rightarrow> home \<Rightarrow> home" where
  "runCallback now rnd cb s =
     (case cb of
        EmotionFetch emotion \<Rightarrow> emotionTimerCallback now rnd emotion s
      | CountdownTick \<Rightarrow> countdownTick s)"

definition fireTimer :: "int \<Rightarrow> nat \<Rightarrow> nat \<Rightarrow> home \<Rightarrow> home" where
  "fireTimer now h rnd s =
     (case find (\<lambda>t. handle t = h) (pending s) of
        None \<Rightarrow> s
      | Some t \<Rightarrow>
          if now < due t then s
          else runCallback now rnd (callback t) (reschedule t s))"

fun step :: "home \<Rightarrow> int \<times> event \<Rightarrow> home" where
  "step s (now, AcceptConsent) = handleAcceptConsent now s"
| "step s (now, DeclineConsent) = handleDeclineConsent s"
| "step s (now, EmotionDetected emotion confidence) = handleEmotionDetected now emotion confidence s"
| "step s (now, TimerFired h rnd) = fireTimer now h rnd s"
| "step s (now, FetchCompleted outcome) = fetchVideosDone outcome s"
| "step s (now, CameraStop) = handleCameraStop s"
| "step s (now, CameraError err) = handleCameraError err s"
| "step s (now, ScanAgain) = handleScanAgain now s"
| "step s (now, QueryChanged q) = s\<lparr>searchQuery := q\<rparr>"
| "step s (now, SearchSubmitted) = handleSearch now s"
| "step s (now, Unmount) = unmounted s"

definition run :: "home \<Rightarrow> (int \<times> event) list \<Rightarrow> home" where
  "run s evs = foldl step s evs"

subsection \<open>The camera feed as the page renders it (components/CameraFeed.tsx)\<close>

text \<open>
  Of a mounted \<^verbatim>\<open>CameraFeed\<close>: whether its models are loaded, and the MediaStream that
  \<^verbatim>\<open>streamRef\<close> holds, by its number. The page has the component's state, the mounted
  feed if there is one, and the streams whose tracks are live (the camera is on while
  there is one).
\<close>

record cameraFeed =
  isModelLoaded :: bool
  streamRef :: "nat option"

record page =
  homeState :: home
  feed :: "cameraFeed option"
  liveStreams :: "nat list"
  nextStream :: nat

definition initialPage :: page where
  "initialPage = \<lparr>homeState = initial, feed = None, liveStreams = [], nextStream = 0\<rparr>"

text \<open>
  \<^verbatim>\<open>cameraError ? ... : cameraActive ? <CameraFeed isActive={cameraActive} .../> : ...\<close>:
  the feed is an element of the page exactly when there is no camera error and the
  camera is active.
\<close>

definition rendersFeed :: "home \<Rightarrow> bool" where
  "rendersFeed s \<longleftrightarrow> mounted s \<and> cameraError s = None \<and> cameraActive s"

text \<open>
  React commits the new state of the component. A feed that is no longer an element
  unmounts: the cleanup of its effect runs, which cancels the animation frame and nothing
  else, so the stream it held keeps its tracks. A feed that becomes an element mounts
  afresh, with no models and no stream. A feed that stays is the same instance; its
  \<^verbatim>\<open>isActive\<close> is true whenever it is rendered, so the \<^verbatim>\<open>!isActive\<close> branch of its
  effect never runs.
\<close>

definition commit :: "page \<Rightarrow> home \<Rightarrow> page" where
  "commit p s =
     p\<lparr>homeState := s,
       feed := (if rendersFeed s
                then (case feed p of
                        None \<Rightarrow> Some \<lparr>isModelLoaded = False, streamRef = None\<rparr>
                      | Some f \<Rightarrow> Some f)
                else None)\<rparr>"

text \<open>
  \<^verbatim>\<open>stopCamera\<close>, the handler of the feed's Stop button and the only caller of
  \<^verbatim>\<open>onStop\<close>: the tracks of the stream are stopped, the ref is cleared, and
  \<^verbatim>\<open>handleCameraStop\<close> runs.
\<close>

definition stopCamera :: "page \<Rightarrow> page" where
  "stopCamera p =
     (case feed p of
        None \<Rightarrow> p
      | Some f \<Rightarrow>
          commit
            (p\<lparr>liveStreams := (case streamRef f of
                                 None \<Rightarrow> liveStreams p
                               | Some i \<Rightarrow> removeAll i (liveStreams p)),
               feed := Some (f\<lparr>streamRef := None\<rparr>)\<rparr>)
            (handleCameraStop (homeState p)))"

text \<open>
  What happens to the page: an event of the component (the click on Stop goes through
  \<^verbatim>\<open>stopCamera\<close>), the models of the mounted feed finish loading, or
  \<^verbatim>\<open>getUserMedia\<close> hands the mounted feed, models loaded, its stream.
\<close>

datatype pageEvent = OfHome event | ModelsLoaded | StreamGranted

fun pageStep :: "page \<Rightarrow> int \<times> pageEvent \<Rightarrow> page" where
  "pageStep p (now, OfHome CameraStop) = stopCamera p"
| "pageStep p (now, OfHome ev) = commit p (step (homeState p) (now, ev))"
| "pageStep p (now, ModelsLoaded) =
     (case feed p of
        None \<Rightarrow> p
      | Some f \<Rightarrow> p\<lparr>feed := Some (f\<lparr>isModelLoaded := True\<rparr>)\<rparr>)"
| "pageStep p (now, StreamGranted) =
     (case feed p of
        None \<Rightarrow> p
      | Some f \<Rightarrow>
          if isModelLoaded f \<and> streamRef f = None
          then p\<lparr>feed := Some (f\<lparr>streamRef := Some (nextStream p)\<rparr>),
                 liveStreams := liveStreams p @ [nextStream p],
                 nextStream := nextStream p + 1\<rparr>
          else p)"

definition pageRun :: "page \<Rightarrow> (int \<times> pageEvent) list \<Rightarrow> page" where
  "pageRun p evs = foldl pageStep p evs"

subsection \<open>Auxiliary notions for the proofs\<close>

text \<open>The pending timers left by \<^verbatim>\<open>if (ref.current) clearTimeout(ref.current)\<close>.\<close>

definition cancel :: "nat option \<Rightarrow> timer list \<Rightarrow> timer list" where
  "cancel r ts = (case r of None \<Rightarrow> ts | Some h \<Rightarrow> filter (\<lambda>t. handle t \<noteq> h) ts)"

text \<open>The run length that \<^verbatim>\<open>handleEmotionDetected\<close> stores for an accepted sample.\<close>

definition observed :: "Emotion \<Rightarrow> home \<Rightarrow> nat" where
  "observed e s = (if Some e = stableEmotionRef s then stableCountRef s + 1 else 1)"

text \<open>
  The timers and the two refs agree: handles are fresh and pairwise distinct, a pending
  interval is the one \<^verbatim>\<open>countdownTimerRef\<close> holds, a pending timeout is the one
  \<^verbatim>\<open>emotionTimerRef\<close> holds.
\<close>

definition timersOk :: "home \<Rightarrow> bool" where
  "timersOk s \<longleftrightarrow>
     distinct (map handle (pending s)) \<and>
     (\<forall>t \<in> set (pending s). handle t < nextHandle s \<and>
        (callback t = CountdownTick \<longrightarrow>
           countdownTimerRef s = Some (handle t) \<and> period t = Some 1000) \<and>
        (callback t \<noteq> CountdownTick \<longrightarrow>
           emotionTimerRef s = Some (handle t) \<and> period t = None)) \<and>
     (\<forall>h. emotionTimerRef s = Some h \<longrightarrow> h < nextHandle s \<and> countdownTimerRef s \<noteq> Some h) \<and>
     (\<forall>h. countdownTimerRef s = Some h \<longrightarrow> h < nextHandle s)"

text \<open>The camera is active exactly while scanning, and scanning needs a positive countdown.\<close>

definition scanOk :: "home \<Rightarrow> bool" where
  "scanOk s \<longleftrightarrow> cameraActive s = isScanning s \<and> (isScanning s \<longrightarrow> 0 < scanCountdown s)"

text \<open>The debounce triggers among pending timers: the emotion and the time each is due.\<close>

definition triggersOf :: "timer list \<Rightarrow> (Emotion \<times> int) list" where
  "triggersOf ts =
     concat (map (\<lambda>t. case callback t of EmotionFetch e \<Rightarrow> [(e, due t)] | CountdownTick \<Rightarrow> []) ts)"

definition emotionTriggers :: "home \<Rightarrow> (Emotion \<times> int) list" where
  "emotionTriggers s = triggersOf (pending s)"

text \<open>
  At time \<open>T\<close>: the last fetch time is not negative, and a pending debounce trigger was
  set when the cooldown was over and not later than \<open>T\<close>.
\<close>

definition coolOk :: "int \<Rightarrow> home \<Rightarrow> bool" where
  "coolOk T s \<longleftrightarrow>
     0 \<le> lastFetchTimeRef s \<and>
     (\<forall>t \<in> set (pending s). callback t \<noteq> CountdownTick \<longrightarrow>
        lastFetchTimeRef s + 3300 \<le> due t \<and> due t \<le> T + 300)"

text \<open>
  The times at which the fetches triggered by stabilisation were issued, in order, after
  the first \<open>k\<close> requests of the log.
\<close>

definition stabilizedSince :: "nat \<Rightarrow> home \<Rightarrow> int list" where
  "stabilizedSince k s =
     map issuedAt (filter (\<lambda>r. origin r \<noteq> Manual) (drop k (requests s)))"

text \<open>
  Since the \<open>k\<close>-th request: stabilised fetches are at least 3000 ms apart, none is later
  than the last fetch time, which is the time of the latest one.
\<close>

definition spacedFrom :: "nat \<Rightarrow> home \<Rightarrow> bool" where
  "spacedFrom k s \<longleftrightarrow>
     k \<le> length (requests s) \<and>
     sorted_wrt (\<lambda>a b. a + 3000 \<le> b) (stabilizedSince k s) \<and>
     (\<forall>a \<in> set (stabilizedSince k s). a \<le> lastFetchTimeRef s) \<and>
     (stabilizedSince k s \<noteq> [] \<longrightarrow> lastFetchTimeRef s = last (stabilizedSince k s))"

text \<open>
  The emotions of the accepted samples of a run (those that pass
  \<^verbatim>\<open>if (confidence < 0.9) return\<close>), in order of arrival, and whether two
  neighbours among them carry the label \<open>e\<close>.
\<close>

fun acceptedOf :: "event \<Rightarrow> Emotion list" where
  "acceptedOf (EmotionDetected e c) = (if c < 0.9 then [] else [e])"
| "acceptedOf _ = []"

definition acceptedEmotions :: "(int \<times> event) list \<Rightarrow> Emotion list" where
  "acceptedEmotions evs = concat (map (\<lambda>ev. acceptedOf (snd ev)) evs)"

fun hasStablePair :: "Emotion \<Rightarrow> Emotion list \<Rightarrow> bool" where
  "hasStablePair e (x # y # zs) = ((x = e \<and> y = e) \<or> hasStablePair e (y # zs))"
| "hasStablePair e _ = False"

text \<open>
  With \<open>acc\<close> the accepted emotions so far: a run length of at least 1 belongs to the last
  of them, and every pending trigger and every stabilised request has its pair.
\<close>

definition stableOk :: "Emotion list \<Rightarrow> home \<Rightarrow> bool" where
  "stableOk acc s \<longleftrightarrow>
     (\<forall>e. stableEmotionRef s = Some e \<and> 1 \<le> stableCountRef s \<longrightarrow> acc \<noteq> [] \<and> last acc = e) \<and>
     (\<forall>t \<in> set (pending s). \<forall>e. callback t = EmotionFetch e \<longrightarrow> hasStablePair e acc) \<and>
     (\<forall>r \<in> set (requests s). \<forall>e. origin r = Stabilized e \<longrightarrow> hasStablePair e acc)"

text \<open>
  What goes on by itself while a scan lasts: detections, timers run by the runtime,
  requests ending (and keystrokes); no click, no submit, no unmount.
\<close>

fun background :: "event \<Rightarrow> bool" where
  "background (EmotionDetected e c) = True"
| "background (TimerFired h rnd) = True"
| "background (FetchCompleted outcome) = True"
| "background (QueryChanged q) = True"
| "background _ = False"

text \<open>
  A tick: the runtime runs the timer that \<^verbatim>\<open>countdownTimerRef\<close> holds, pending and due.
  \<open>ticksIn\<close> counts the ticks of a run.
\<close>

fun isTick :: "home \<Rightarrow> int \<times> event \<Rightarrow> bool" where
  "isTick s (now, TimerFired h rnd) \<longleftrightarrow>
     countdownTimerRef s = Some h \<and> (\<exists>t \<in> set (pending s). handle t = h \<and> due t \<le> now)"
| "isTick s _ \<longleftrightarrow> False"

fun ticksIn :: "home \<Rightarrow> (int \<times> event) list \<Rightarrow> nat" where
  "ticksIn s [] = 0"
| "ticksIn s (ev # evs) = (if isTick s ev then 1 else 0) + ticksIn (step s ev) evs"

subsection \<open>Concrete inputs\<close>

definition exampleVideo :: "string \<Rightarrow> string \<Rightarrow> YouTubeVideo" where
  "exampleVideo i t = \<lparr>id' = js i, title = js t, thumbnail = [], channelTitle = None\<rparr>"

definition exampleScores :: "real \<Rightarrow> real \<Rightarrow> real \<Rightarrow> real \<Rightarrow> expressions" where
  "exampleScores h s n su =
     \<lparr>happy = h, sad = s, neutral = n, surprised = su, angry = 0, fearful = 0, disgusted = 0\<rparr>"

text \<open>Consent at time 0, then two accepted happy samples 66 ms apart.\<close>

definition stableHappy :: "(int \<times> event) list" where
  "stableHappy = [(0, AcceptConsent), (10000, EmotionDetected Happy 0.95),
     (10066, EmotionDetected Happy 0.92)]"

text \<open>
  Consent at 100000 ms, the models loaded, the stream granted, then the five ticks, with
  an accepted happy sample 100 ms before the last one.
\<close>

definition scanWithCamera :: "(int \<times> pageEvent) list" where
  "scanWithCamera =
     [(100000, OfHome AcceptConsent), (100200, ModelsLoaded), (100400, StreamGranted),
      (101000, OfHome (TimerFired 1 0)), (102000, OfHome (TimerFired 1 0)),
      (103000, OfHome (TimerFired 1 0)), (104000, OfHome (TimerFired 1 0)),
      (104900, OfHome (EmotionDetected Happy 0.95)), (105000, OfHome (TimerFired 1 0))]"

text \<open>
  A first session with one stabilised fetch at 10366 ms and a restart at 10500 ms; then
  a second session with stabilised fetches at 10966 ms and 14300 ms.
\<close>

definition restartAfterFetch :: "(int \<times> event) list" where
  "restartAfterFetch = stableHappy @ [(10366, TimerFired 2 0), (10500, ScanAgain)]"

definition secondSession :: "(int \<times> event) list" where
  "secondSession =
     [(10600, EmotionDetected Happy 0.95), (10666, EmotionDetected Happy 0.92),
      (10966, TimerFired 4 0), (14000, EmotionDetected Happy 0.95),
      (14300, TimerFired 5 0)]"

text \<open>Two accepted happy samples with a sample below the threshold between them.\<close>

definition happyAroundNoise :: "(int \<times> event) list" where
  "happyAroundNoise = [(0, AcceptConsent), (10000, EmotionDetected Happy 0.95),
     (10030, EmotionDetected Sad 0.5), (10066, EmotionDetected Happy 0.92),
     (10366, TimerFired 2 0)]"

section \<open>The handlers as state updates, and the invariants of a run\<close>

lemma clearIfSet_eq: "clearIfSet r s = s\<lparr>pending := cancel r (pending s)\<rparr>"
  by (cases r) (simp_all add: clearIfSet_def clearTimer_def cancel_def)

lemma set_cancel: "set (cancel r ts) = {t \<in> set ts. r \<noteq> Some (handle t)}"
  by (cases r) (auto simp: cancel_def)

lemma distinct_cancel: "distinct (map handle ts) \<Longrightarrow> distinct (map handle (cancel r ts))"
  by (cases r) (simp_all add: cancel_def distinct_map_filter)

lemma handleEmotionDetected_eq:
  "handleEmotionDetected now e c s =
     (if c < 0.9 then s
      else if observed e s < 2
      then s\<lparr>stableEmotionRef := Some e, stableCountRef := observed e s\<rparr>
      else if now - lastFetchTimeRef s < 3000
      then s\<lparr>stableEmotionRef := Some e, stableCountRef := observed e s, currentEmotion := Some e\<rparr>
      else s\<lparr>stableEmotionRef := Some e, stableCountRef := observed e s, currentEmotion := Some e,
             pending := cancel (emotionTimerRef s) (pending s) @
                [\<lparr>handle = nextHandle s, due = now + 300, period = None, callback = EmotionFetch e\<rparr>],
             nextHandle := nextHandle s + 1,
             emotionTimerRef := Some (nextHandle s)\<rparr>)"
  by (simp add: handleEmotionDetected_def observed_def Let_def clearIfSet_eq setTimeout_def)

lemma startCountdown_eq:
  "startCountdown now s =
     s\<lparr>scanCountdown := 5,
       pending := cancel (countdownTimerRef s) (pending s) @
          [\<lparr>handle = nextHandle s, due = now + 1000, period = Some 1000, callback = CountdownTick\<rparr>],
       nextHandle := nextHandle s + 1,
       countdownTimerRef := Some (nextHandle s)\<rparr>"
  by (simp add: startCountdown_def SCAN_DURATION_def Let_def clearIfSet_eq setInterval_def)

lemma countdownTick_eq:
  "countdownTick s =
     (if scanCountdown s \<le> 1
      then s\<lparr>pending := cancel (countdownTimerRef s) (pending s),
             cameraActive := False, isScanning := False, scanCountdown := 0\<rparr>
      else s\<lparr>scanCountdown := scanCountdown s - 1\<rparr>)"
  by (simp add: countdownTick_def clearIfSet_eq)

lemma handleCameraStop_eq:
  "handleCameraStop s =
     s\<lparr>cameraActive := False, isScanning := False,
       pending := cancel (countdownTimerRef s) (cancel (emotionTimerRef s) (pending s))\<rparr>"
  by (simp add: handleCameraStop_def Let_def clearIfSet_eq)

lemma unmount_eq:
  "unmount s = s\<lparr>pending := cancel (countdownTimerRef s) (cancel (emotionTimerRef s) (pending s))\<rparr>"
  by (simp add: unmount_def Let_def clearIfSet_eq)

lemma unmounted_eq:
  "unmounted s =
     s\<lparr>pending := cancel (countdownTimerRef s) (cancel (emotionTimerRef s) (pending s)),
       mounted := False\<rparr>"
  by (simp add: unmounted_def unmount_eq)

text \<open>Strings of characters below 256, the keywords of the table among them, are well formed.\<close>

lemma nat_of_char_bound: "(of_char c :: nat) \<le> 255"
  using nat_of_char_less_256 [of c] by (simp del: nat_of_char_less_256)

lemma unat_of_char: "unat (of_char c :: 16 word) = of_char c"
proof -
  have "(of_char c :: 16 word) = of_nat (of_char c)" by (simp add: of_nat_of_char)
  moreover have "(of_char c :: nat) < 2 ^ LENGTH(16)"
    using nat_of_char_bound [of c] by simp
  ultimately show ?thesis by (simp add: unat_of_nat)
qed

lemma not_surrogate_of_char: "\<not> isHighSurrogate (of_char c)" "\<not> isLowSurrogate (of_char c)"
  using nat_of_char_bound [of c]
  by (auto simp: isHighSurrogate_def isLowSurrogate_def word_le_nat_alt unat_of_char)

lemma isWellFormed_no_surrogates:
  "\<forall>c \<in> set cs. \<not> isHighSurrogate c \<and> \<not> isLowSurrogate c \<Longrightarrow> isWellFormed cs"
  by (induction cs rule: isWellFormed.induct) auto

lemma isWellFormed_js [simp]: "isWellFormed (js s)"
  by (rule isWellFormed_no_surrogates) (auto simp: js_def not_surrogate_of_char)

lemma isWellFormed_getRandomKeyword [simp]: "isWellFormed (getRandomKeyword rnd e)"
proof -
  have "\<forall>k \<in> set (keywords' (emotionMapping e)). isWellFormed k"
    by (cases e) simp_all
  moreover have "keywords' (emotionMapping e) \<noteq> []"
    by (cases e) simp_all
  ultimately show ?thesis
    by (simp add: getRandomKeyword_def Let_def)
qed

lemma fetchVideos_eq:
  "fetchVideos now by kw s =
     (if isWellFormed kw
      then s\<lparr>isLoadingVideos := True, videoError := None,
             requests := requests s @ [\<lparr>keyword = kw, issuedAt = now, origin = by\<rparr>]\<rparr>
      else s\<lparr>isLoadingVideos := False, videoError := Some uriMalformed\<rparr>)"
  by (simp add: fetchVideos_def Let_def caughtMessage_def)

lemma handleSearch_eq:
  "handleSearch now s =
     (if trim (searchQuery s) = [] then s
      else
        (fetchVideos now Manual (trim (searchQuery s)) s)
          \<lparr>searchKeyword := Some (trim (searchQuery s)), currentEmotion := None,
           cameraActive := False,
           isScanning := (if cameraActive s then False else isScanning s),
           pending := (if cameraActive s then cancel (countdownTimerRef s) (pending s)
                       else pending s)\<rparr>)"
  by (simp add: handleSearch_def Let_def clearIfSet_eq fetchVideos_eq)

lemma emotionTimerCallback_eq:
  "emotionTimerCallback now rnd e s =
     s\<lparr>searchKeyword := Some (getRandomKeyword rnd e), isLoadingVideos := True,
       videoError := None,
       requests := requests s @
         [\<lparr>keyword = getRandomKeyword rnd e, issuedAt = now, origin = Stabilized e\<rparr>],
       lastSearchedEmotion := Some e, lastFetchTimeRef := now\<rparr>"
  by (simp add: emotionTimerCallback_def Let_def fetchVideos_eq)

lemmas handler_eqs = handleEmotionDetected_eq startCountdown_eq countdownTick_eq
  handleCameraStop_eq unmount_eq unmounted_eq handleSearch_eq fetchVideos_eq
  emotionTimerCallback_eq
  handleAcceptConsent_def handleDeclineConsent_def handleCameraError_def handleScanAgain_def

lemma timersOk_initial: "timersOk initial"
  by (simp add: timersOk_def initial_def)

lemma timersOk_handleEmotionDetected:
  "timersOk s \<Longrightarrow> timersOk (handleEmotionDetected now e c s)"
  unfolding handleEmotionDetected_eq timersOk_def
  by (auto simp: set_cancel distinct_cancel)

lemma timersOk_startCountdown: "timersOk s \<Longrightarrow> timersOk (startCountdown now s)"
  unfolding startCountdown_eq timersOk_def
  by (auto simp: set_cancel distinct_cancel)

lemma timersOk_countdownTick: "timersOk s \<Longrightarrow> timersOk (countdownTick s)"
  unfolding countdownTick_eq timersOk_def
  by (auto simp: set_cancel distinct_cancel)

lemma timersOk_frame:
  "pending s' = pending s \<Longrightarrow> nextHandle s' = nextHandle s \<Longrightarrow>
   emotionTimerRef s' = emotionTimerRef s \<Longrightarrow> countdownTimerRef s' = countdownTimerRef s \<Longrightarrow>
   timersOk s \<Longrightarrow> timersOk s'"
  by (simp add: timersOk_def)

lemma timersOk_cancel: "timersOk s \<Longrightarrow> timersOk (s\<lparr>pending := cancel r (pending s)\<rparr>)"
  by (auto simp: timersOk_def set_cancel distinct_cancel)

lemma timersOk_fetchVideos: "timersOk s \<Longrightarrow> timersOk (fetchVideos now by kw s)"
  by (rule timersOk_frame [of _ s]) (simp_all add: fetchVideos_eq)

lemma timersOk_unmount: "timersOk s \<Longrightarrow> timersOk (unmount s)"
  using timersOk_cancel [of "s\<lparr>pending := cancel (emotionTimerRef s) (pending s)\<rparr>"
      "countdownTimerRef s"] timersOk_cancel [of s "emotionTimerRef s"]
  by (simp add: unmount_eq)

lemma timersOk_others:
  "timersOk s \<Longrightarrow> timersOk (handleCameraStop s)"
  "timersOk s \<Longrightarrow> timersOk (unmounted s)"
  "timersOk s \<Longrightarrow> timersOk (handleSearch now s)"
  "timersOk s \<Longrightarrow> timersOk (emotionTimerCallback now rnd e s)"
  "timersOk s \<Longrightarrow> timersOk (handleDeclineConsent s)"
  "timersOk s \<Longrightarrow> timersOk (handleCameraError err s)"
  "timersOk s \<Longrightarrow> timersOk (s\<lparr>searchQuery := q\<rparr>)"
proof -
  assume ok: "timersOk s"
  have u: "timersOk (unmount s)" using ok by (rule timersOk_unmount)
  show "timersOk (handleCameraStop s)"
    by (rule timersOk_frame [OF _ _ _ _ u]) (simp_all add: handleCameraStop_eq unmount_eq)
  show "timersOk (unmounted s)"
    by (rule timersOk_frame [OF _ _ _ _ u]) (simp_all add: unmounted_def)
  have f: "timersOk (fetchVideos now Manual (trim (searchQuery s)) s)"
    using ok by (rule timersOk_fetchVideos)
  have c: "timersOk (s\<lparr>pending := cancel (countdownTimerRef s) (pending s)\<rparr>)"
    using ok by (rule timersOk_cancel)
  show "timersOk (handleSearch now s)"
  proof (cases "trim (searchQuery s) \<noteq> [] \<and> cameraActive s")
    case True
    then show ?thesis
      by (intro timersOk_frame [OF _ _ _ _ c]) (simp_all add: handleSearch_eq fetchVideos_eq)
  next
    case False
    then show ?thesis
      by (intro timersOk_frame [OF _ _ _ _ ok]) (auto simp: handleSearch_eq fetchVideos_eq)
  qed
  show "timersOk (emotionTimerCallback now rnd e s)"
    by (rule timersOk_frame [OF _ _ _ _ ok]) (simp_all add: emotionTimerCallback_eq)
  show "timersOk (handleDeclineConsent s)"
    by (rule timersOk_frame [OF _ _ _ _ ok]) (simp_all add: handleDeclineConsent_def)
  show "timersOk (handleCameraError err s)"
    by (rule timersOk_frame [OF _ _ _ _ ok]) (simp_all add: handleCameraError_def)
  show "timersOk (s\<lparr>searchQuery := q\<rparr>)"
    by (rule timersOk_frame [OF _ _ _ _ ok]) simp_all
qed

lemma timersOk_fetchVideosDone: "timersOk s \<Longrightarrow> timersOk (fetchVideosDone outcome s)"
  by (cases outcome) (simp_all add: timersOk_others(2), simp_all add: timersOk_def)

lemma handle_comp_due [simp]:
  "handle \<circ> (\<lambda>u. if handle u = h then u\<lparr>due := f u\<rparr> else u) = handle"
  by (auto simp: fun_eq_iff)

lemma reschedule_eq:
  "reschedule t s =
     s\<lparr>pending := (case period t of
                     None \<Rightarrow> cancel (Some (handle t)) (pending s)
                   | Some p \<Rightarrow> map (\<lambda>u. if handle u = handle t then u\<lparr>due := due u + p\<rparr> else u)
                                (pending s))\<rparr>"
  by (cases "period t") (simp_all add: reschedule_def clearTimer_def cancel_def)

lemma timersOk_reschedule: "timersOk s \<Longrightarrow> timersOk (reschedule t s)"
  unfolding reschedule_eq timersOk_def
  by (cases "period t") (auto simp: set_cancel distinct_cancel)

lemma timersOk_runCallback: "timersOk s \<Longrightarrow> timersOk (runCallback now rnd cb s)"
  by (cases cb) (simp_all add: runCallback_def timersOk_others timersOk_countdownTick)

lemma timersOk_fireTimer: "timersOk s \<Longrightarrow> timersOk (fireTimer now h rnd s)"
  by (simp add: fireTimer_def timersOk_reschedule timersOk_runCallback split: option.splits)

lemma timersOk_accept_again:
  "timersOk s \<Longrightarrow> timersOk (handleAcceptConsent now s)"
  "timersOk s \<Longrightarrow> timersOk (handleScanAgain now s)"
  unfolding handleAcceptConsent_def handleScanAgain_def
  by (rule timersOk_startCountdown, simp add: timersOk_def)+

lemma timersOk_step: "timersOk s \<Longrightarrow> timersOk (step s ev)"
  by (cases "(s, ev)" rule: step.cases)
     (simp_all add: timersOk_handleEmotionDetected timersOk_others timersOk_fireTimer
        timersOk_accept_again timersOk_fetchVideosDone)

lemma timersOk_run_from: "timersOk s \<Longrightarrow> timersOk (run s evs)"
  unfolding run_def by (induction evs arbitrary: s) (simp_all add: timersOk_step)

lemma timersOk_run: "timersOk (run initial evs)"
  by (simp add: timersOk_run_from timersOk_initial)

subsection \<open>The scanning flags\<close>

lemma scanOk_reschedule: "scanOk (reschedule t s) = scanOk s"
  by (simp add: reschedule_eq scanOk_def)

lemma scanOk_step: "scanOk s \<Longrightarrow> scanOk (step s ev)"
proof (cases "(s, ev)" rule: step.cases)
  case (4 s' now h rnd)
  assume ok: "scanOk s"
  have cb: "scanOk (runCallback now rnd cb s'')" if "scanOk s''" for cb s''
    using that by (cases cb) (auto simp: runCallback_def handler_eqs scanOk_def)
  show ?thesis using 4 ok
    by (auto simp: fireTimer_def cb scanOk_reschedule split: option.splits)
next
  case (5 s' now outcome)
  assume "scanOk s" then show ?thesis using 5
    by (cases outcome) (auto simp: scanOk_def unmounted_eq)
qed (auto simp: handler_eqs scanOk_def)

lemma scanOk_run: "scanOk (run initial evs)"
proof -
  have "scanOk s \<Longrightarrow> scanOk (foldl step s evs)" for s
    by (induction evs arbitrary: s) (simp_all add: scanOk_step)
  then show ?thesis by (simp add: run_def scanOk_def initial_def)
qed

subsection \<open>Debounce triggers and the cooldown\<close>

lemmas eval_simps = run_def initial_def handler_eqs observed_def cancel_def fireTimer_def
  reschedule_eq runCallback_def emotionTriggers_def triggersOf_def stableHappy_def

lemma triggersOf_append [simp]: "triggersOf (xs @ ys) = triggersOf xs @ triggersOf ys"
  by (simp add: triggersOf_def)



lemma triggersOf_filter_countdown:
  "\<forall>t \<in> set ts. handle t = h \<longrightarrow> callback t = CountdownTick \<Longrightarrow>
   triggersOf (filter (\<lambda>t. handle t \<noteq> h) ts) = triggersOf ts"
  by (induction ts) (auto simp: triggersOf_def)

lemma triggersOf_cancel_countdown:
  assumes "timersOk s"
  shows "triggersOf (cancel (countdownTimerRef s) (pending s)) = triggersOf (pending s)"
proof (cases "countdownTimerRef s")
  case None
  then show ?thesis by (simp add: cancel_def)
next
  case (Some h)
  have "\<forall>t \<in> set (pending s). handle t = h \<longrightarrow> callback t = CountdownTick"
    using assms Some by (auto simp: timersOk_def)
  then show ?thesis using Some by (simp add: cancel_def triggersOf_filter_countdown)
qed

lemma coolOk_mono: "coolOk T s \<Longrightarrow> T \<le> T' \<Longrightarrow> coolOk T' s"
  by (fastforce simp: coolOk_def)

lemma coolOk_handleEmotionDetected:
  "coolOk now s \<Longrightarrow> coolOk now (handleEmotionDetected now e c s)"
  unfolding handleEmotionDetected_eq coolOk_def
  by (auto simp: set_cancel)

lemma find_handle_Some:
  "find (\<lambda>t. handle t = h) ts = Some t \<Longrightarrow> t \<in> set ts \<and> handle t = h"
  by (induction ts) (auto split: if_splits)

lemma coolOk_fireTimer:
  assumes "timersOk s" and "coolOk now s" and "0 \<le> now"
  shows "coolOk now (fireTimer now h rnd s)"
proof (cases "find (\<lambda>t. handle t = h) (pending s)")
  case None
  then show ?thesis using assms by (simp add: fireTimer_def)
next
  case (Some t)
  then have t: "t \<in> set (pending s)" "handle t = h" using find_handle_Some by blast+
  show ?thesis
  proof (cases "callback t")
    case (EmotionFetch e)
    then have per: "period t = None" and ref: "emotionTimerRef s = Some h"
      using assms(1) t by (auto simp: timersOk_def)
    have gone: "\<forall>u \<in> set (cancel (Some h) (pending s)). callback u = CountdownTick"
      using assms(1) ref by (auto simp: set_cancel timersOk_def)
    show ?thesis using Some EmotionFetch per gone assms(2,3) t
      by (auto simp: fireTimer_def runCallback_def reschedule_eq emotionTimerCallback_eq coolOk_def)
  next
    case CountdownTick
    then have per: "period t = Some 1000" and ref: "countdownTimerRef s = Some h"
      using assms(1) t by (auto simp: timersOk_def)
    have other: "\<forall>u \<in> set (pending s). callback u \<noteq> CountdownTick \<longrightarrow> handle u \<noteq> h"
      using assms(1) ref by (auto simp: timersOk_def)
    have keep: "coolOk now (reschedule t s)"
      using assms(2) other per t by (auto simp: reschedule_eq coolOk_def)
    have "coolOk now (countdownTick (reschedule t s))"
      using keep by (auto simp: countdownTick_eq coolOk_def set_cancel)
    then show ?thesis using Some CountdownTick assms(2)
      by (simp add: fireTimer_def runCallback_def)
  qed
qed

lemma coolOk_step:
  assumes "timersOk s" and "coolOk T s" and "T \<le> now" and "0 \<le> T"
  shows "coolOk now (step s (now, ev))"
proof -
  have c: "coolOk now s" using assms(2,3) by (rule coolOk_mono)
  have n: "0 \<le> now" using assms(3,4) by simp
  show ?thesis
  proof (cases ev)
    case (EmotionDetected e conf)
    then show ?thesis using c by (simp add: coolOk_handleEmotionDetected)
  next
    case (TimerFired h rnd)
    then show ?thesis using assms(1) c n by (simp add: coolOk_fireTimer)
  next
    case (FetchCompleted outcome)
    then show ?thesis using c by (cases outcome) (auto simp: coolOk_def unmounted_eq set_cancel)
  qed (use c in \<open>auto simp: handler_eqs coolOk_def set_cancel\<close>)
qed

lemma coolOk_run_from:
  "timersOk s \<Longrightarrow> coolOk T s \<Longrightarrow> 0 \<le> T \<Longrightarrow> sorted (T # map fst evs) \<Longrightarrow>
   coolOk (last (T # map fst evs)) (run s evs)"
proof (induction evs arbitrary: s T)
  case Nil
  then show ?case by (simp add: run_def)
next
  case (Cons ev evs)
  obtain now e where ev: "ev = (now, e)" by (cases ev)
  have le: "T \<le> now" using Cons.prems(4) ev by simp
  have "coolOk (last (now # map fst evs)) (run (step s (now, e)) evs)"
    using Cons.prems ev le
    by (intro Cons.IH) (auto simp: timersOk_step coolOk_step)
  then show ?case using ev by (simp add: run_def)
qed

lemma coolOk_run:
  "sorted (0 # map fst evs) \<Longrightarrow> coolOk (last (0 # map fst evs)) (run initial evs)"
  by (rule coolOk_run_from) (simp_all add: timersOk_initial, simp add: coolOk_def initial_def)







lemma stop_and_unmount_cancel_all:
  assumes "timersOk s"
  shows "pending (handleCameraStop s) = []" and "pending (unmount s) = []"
proof -
  have "cancel (countdownTimerRef s) (cancel (emotionTimerRef s) (pending s)) = []"
    using assms by (auto simp: filter_empty_conv set_cancel timersOk_def
        simp flip: set_empty)
  then show "pending (handleCameraStop s) = []" and "pending (unmount s) = []"
    by (simp_all add: handleCameraStop_eq unmount_eq)
qed

section \<open>The accumulating merge\<close>

lemma mergeVideos_ids:
  "id' ` set (mergeVideos prev resp) = id' ` set prev \<union> id' ` set resp"
  by (auto simp: mergeVideos_def)

lemma mergeVideos_keeps_existing: "take (length prev) (mergeVideos prev resp) = prev"
  by (simp add: mergeVideos_def)

lemma mergeVideos_appends_in_order:
  "drop (length prev) (mergeVideos prev resp) = filter (\<lambda>v. id' v \<notin> id' ` set prev) resp"
  by (simp add: mergeVideos_def)

text \<open>Ids stay pairwise distinct as long as no response repeats an id within itself.\<close>

lemma mergeVideos_distinct:
  "distinct (map id' prev) \<Longrightarrow> distinct (map id' resp) \<Longrightarrow>
   distinct (map id' (mergeVideos prev resp))"
  by (auto simp: mergeVideos_def distinct_map_filter) (metis imageI)

lemma mergeVideos_idem: "mergeVideos (mergeVideos prev resp) resp = mergeVideos prev resp"
  by (auto simp: mergeVideos_def filter_empty_conv)

text \<open>
  Claim C1. The accumulator is meant never to hold two items with equal id. The filter of
  the merge compares each item of a response with the ids accumulated before the
  response only, so a response that lists one id twice puts both copies into the
  accumulator: merging the response \<open>[a, a]\<close> into the empty accumulator of the
  freshly mounted component leaves two items with id \<open>a\<close>.
\<close>

theorem C1_repeated_id_within_response:
  "videos (fetchVideosDone (Success [exampleVideo ''a'' ''x'', exampleVideo ''a'' ''x'']) initial)
     = [exampleVideo ''a'' ''x'', exampleVideo ''a'' ''x''] \<and>
   \<not> distinct (map id'
      (videos (fetchVideosDone (Success [exampleVideo ''a'' ''x'', exampleVideo ''a'' ''x''])
         initial)))"
  by (simp add: initial_def mergeVideos_def exampleVideo_def)

text \<open>
  Claim C9, as stated, fails: the final accumulated state, a list, depends on the
  order in which two fetches complete. With responses \<open>[a]\<close> and \<open>[b]\<close> the
  accumulator ends as \<open>[a, b]\<close> or as \<open>[b, a]\<close>.
\<close>

theorem C9_completion_order_counterexample:
  "videos (fetchVideosDone (Success [exampleVideo ''b'' ''y''])
            (fetchVideosDone (Success [exampleVideo ''a'' ''x'']) initial))
   \<noteq> videos (fetchVideosDone (Success [exampleVideo ''a'' ''x''])
            (fetchVideosDone (Success [exampleVideo ''b'' ''y'']) initial))"
  by (simp add: initial_def mergeVideos_def exampleVideo_def js_def)

text \<open>
  Claim C9, amended. Merging a response is idempotent: completing a fetch twice with
  the same response leaves the whole component state as completing it once does. The
  set of ids accumulated by two fetches does not depend on the order in which they
  complete (the order of the items does).
\<close>

theorem C9_merge_idempotent_ids_order_independent:
  "fetchVideosDone (Success resp) (fetchVideosDone (Success resp) s)
     = fetchVideosDone (Success resp) s \<and>
   id' ` set (videos (fetchVideosDone (Success b) (fetchVideosDone (Success a) s)))
     = id' ` set (videos (fetchVideosDone (Success a) (fetchVideosDone (Success b) s)))"
  by (auto simp: mergeVideos_idem mergeVideos_ids)

section \<open>The expression mapping\<close>

text \<open>The loop over the three entries, unrolled.\<close>

lemma foldl_maxStep_relevant:
  "foldl maxStep (Neutral, 0) (relevantExpressions ex) =
     (let h = happy ex; s = sad ex; n = neutral ex + surprised ex in
      if h > 0
      then (if s > h then (if n > s then (Neutral, n) else (Sad, s))
            else (if n > h then (Neutral, n) else (Happy, h)))
      else (if s > 0 then (if n > s then (Neutral, n) else (Sad, s))
            else (if n > 0 then (Neutral, n) else (Neutral, 0))))"
  by (simp add: relevantExpressions_def maxStep_def Let_def)

text \<open>
  Claim C10. \<^verbatim>\<open>mapExpressionToEmotion\<close> never returns \<open>Surprised\<close>. The surprised
  score is added to the neutral one in the table of relevant entries; with \<open>m\<close> the
  largest score of that table, the result is \<open>Neutral\<close> when \<open>m\<close> is below 0.3, and
  otherwise the result is an entry of the table that carries \<open>m\<close>. The keyword lists
  of \<open>Surprised\<close> and \<open>Neutral\<close> are equal.
\<close>

theorem C10_mapExpressionToEmotion:
  "mapExpressionToEmotion ex \<noteq> Surprised \<and>
   relevantExpressions ex =
     [(Happy, happy ex), (Sad, sad ex), (Neutral, neutral ex + surprised ex)] \<and>
   (let m = Max (snd ` set (relevantExpressions ex)) in
      (m < 0.3 \<longrightarrow> mapExpressionToEmotion ex = Neutral) \<and>
      (0.3 \<le> m \<longrightarrow> (mapExpressionToEmotion ex, m) \<in> set (relevantExpressions ex))) \<and>
   keywords' (emotionMapping Surprised) = keywords' (emotionMapping Neutral)"
  unfolding mapExpressionToEmotion_def foldl_maxStep_relevant
  by (auto simp: Let_def relevantExpressions_def max_def split: if_splits)

theorem C10_mapExpressionToEmotion_witness:
  "mapExpressionToEmotion (exampleScores 0.1 0.1 0.1 0.1) = Neutral \<and>
   (mapExpressionToEmotion (exampleScores 0.2 0.1 0.3 0.4), 0.7)
     \<in> set (relevantExpressions (exampleScores 0.2 0.1 0.3 0.4)) \<and>
   mapExpressionToEmotion (exampleScores 0.2 0.1 0.3 0.4) = Neutral"
proof -
  have m1: "Max (snd ` set (relevantExpressions (exampleScores 0.1 0.1 0.1 0.1))) = 0.2"
    by (simp add: relevantExpressions_def exampleScores_def)
  have m2: "Max (snd ` set (relevantExpressions (exampleScores 0.2 0.1 0.3 0.4))) = 0.7"
    by (simp add: relevantExpressions_def exampleScores_def)
  show ?thesis
    using C10_mapExpressionToEmotion [of "exampleScores 0.1 0.1 0.1 0.1"]
      C10_mapExpressionToEmotion [of "exampleScores 0.2 0.1 0.3 0.4"]
    unfolding m1 m2 Let_def
    by (auto simp: relevantExpressions_def exampleScores_def)
qed

section \<open>Fetches that end in an error\<close>

text \<open>
  Claim C5, as stated, fails for a malformed payload that arrives with a 2xx status: the
  TypeError is thrown in the updater of \<^verbatim>\<open>setVideos\<close>, which React runs outside the
  \<^verbatim>\<open>try\<close> of \<^verbatim>\<open>fetchVideos\<close>. With one video accumulated and a fetch under way, such
  a response sets no error (the error cell stays empty) and the component, with its
  accumulated videos, is unmounted.
\<close>

theorem C5_malformed_2xx_counterexample:
  "videoError (fetchVideosDone Malformed (fetchVideos 0 Manual (js ''songs'')
      (fetchVideosDone (Success [exampleVideo ''a'' ''x'']) initial))) = None \<and>
   \<not> mounted (fetchVideosDone Malformed (fetchVideos 0 Manual (js ''songs'')
      (fetchVideosDone (Success [exampleVideo ''a'' ''x'']) initial)))"
  by (simp add: initial_def fetchVideos_eq unmounted_eq)

text \<open>
  Claim C5, amended. A fetch that ends in an error which \<^verbatim>\<open>fetchVideos\<close> catches (the
  request is rejected, the body is not JSON, or the status is not 2xx, with or without
  an \<^verbatim>\<open>error\<close> field) leaves the accumulated videos as they were, both at its
  completion and since before the call, and sets the error cell; the text set is not
  empty unless the rejection was an Error with an empty message. Likewise a fetch whose
  keyword cannot be encoded for the URL sends no request, leaves the videos as they
  were and sets the error cell.
\<close>

theorem C5_failed_fetch_keeps_videos:
  "(\<forall>vs. outcome \<noteq> Success vs) \<Longrightarrow> outcome \<noteq> Malformed \<Longrightarrow>
   videos (fetchVideosDone outcome s) = videos s \<and>
   videos (fetchVideosDone outcome (fetchVideos now by kw s)) = videos s \<and>
   videoError (fetchVideosDone outcome s) \<noteq> None \<and>
   (outcome \<noteq> FetchRejected (Some []) \<and> outcome \<noteq> JsonRejected (Some [])
      \<longrightarrow> videoError (fetchVideosDone outcome s) \<noteq> Some []) \<and>
   (\<not> isWellFormed kw \<longrightarrow>
      videos (fetchVideos now by kw s) = videos s \<and>
      requests (fetchVideos now by kw s) = requests s \<and>
      videoError (fetchVideos now by kw s) = Some uriMalformed)"
  by (cases outcome)
    (auto simp: fetchVideos_eq caughtMessage_def notOkMessage_def failedToFetch_def js_def
          split: option.splits)

theorem C5_failed_fetch_keeps_videos_witness:
  "videos (fetchVideosDone (NotOk (Some (js ''quota exceeded'')))
      (fetchVideosDone (Success [exampleVideo ''a'' ''x'']) initial))
     = [exampleVideo ''a'' ''x''] \<and>
   videoError (fetchVideosDone (NotOk (Some (js ''quota exceeded'')))
      (fetchVideosDone (Success [exampleVideo ''a'' ''x'']) initial))
     = Some (js ''quota exceeded'') \<and>
   \<not> isWellFormed (js ''song '' @ [0xD83D]) \<and>
   videoError (fetchVideos 0 Manual (js ''song '' @ [0xD83D])
      (fetchVideosDone (Success [exampleVideo ''a'' ''x'']) initial))
     = Some uriMalformed \<and>
   videos (fetchVideos 0 Manual (js ''song '' @ [0xD83D])
      (fetchVideosDone (Success [exampleVideo ''a'' ''x'']) initial))
     = [exampleVideo ''a'' ''x'']"
proof -
  have bad: "\<not> isWellFormed (js ''song '' @ [0xD83D])"
    by (simp add: js_def isHighSurrogate_def isLowSurrogate_def)
  show ?thesis
    using C5_failed_fetch_keeps_videos [of "NotOk (Some (js ''quota exceeded''))"
        "fetchVideosDone (Success [exampleVideo ''a'' ''x'']) initial" 0 Manual
        "js ''song '' @ [0xD83D]"] bad
    by (simp add: initial_def mergeVideos_def caughtMessage_def notOkMessage_def js_def)
qed

section \<open>Stabilisation: two consecutive accepted samples\<close>

lemma hasStablePair_append: "hasStablePair e xs \<Longrightarrow> hasStablePair e (xs @ ys)"
  by (induction e xs rule: hasStablePair.induct) auto

lemma hasStablePair_snoc: "xs \<noteq> [] \<Longrightarrow> last xs = e \<Longrightarrow> hasStablePair e (xs @ [e])"
  by (induction e xs rule: hasStablePair.induct) auto

lemma stableOk_frame:
  "stableEmotionRef s' = stableEmotionRef s \<Longrightarrow> stableCountRef s' = stableCountRef s \<Longrightarrow>
   set (pending s') \<subseteq> set (pending s) \<Longrightarrow> requests s' = requests s \<Longrightarrow>
   stableOk acc s \<Longrightarrow> stableOk acc s'"
  by (auto simp: stableOk_def)

lemma stableOk_sample:
  assumes "stableOk acc s"
  shows "stableOk (acc @ acceptedOf (EmotionDetected e c)) (handleEmotionDetected now e c s)"
proof (cases "c < 0.9")
  case True
  then show ?thesis using assms by (simp add: handleEmotionDetected_eq)
next
  case False
  have old: "hasStablePair e' (acc @ [e])" if "hasStablePair e' acc" for e'
    using that by (rule hasStablePair_append)
  have new: "hasStablePair e (acc @ [e])" if "\<not> observed e s < 2"
  proof -
    have "stableEmotionRef s = Some e \<and> 1 \<le> stableCountRef s"
      using that by (auto simp: observed_def split: if_splits)
    then have "acc \<noteq> [] \<and> last acc = e" using assms by (simp add: stableOk_def)
    then show ?thesis by (simp add: hasStablePair_snoc)
  qed
  show ?thesis using False assms old new
    by (auto simp: handleEmotionDetected_eq stableOk_def set_cancel)
qed

lemma stableOk_fireTimer:
  assumes "stableOk acc s"
  shows "stableOk acc (fireTimer now h rnd s)"
proof (cases "find (\<lambda>t. handle t = h) (pending s)")
  case None
  then show ?thesis using assms by (simp add: fireTimer_def)
next
  case (Some t)
  then have t: "t \<in> set (pending s)" "handle t = h" using find_handle_Some by blast+
  have keep: "stableOk acc (reschedule t s)"
    using assms by (cases "period t") (auto simp: reschedule_eq stableOk_def set_cancel)
  show ?thesis
  proof (cases "callback t")
    case (EmotionFetch e)
    then have "hasStablePair e acc" using assms t by (auto simp: stableOk_def)
    then have "stableOk acc (emotionTimerCallback now rnd e (reschedule t s))"
      using keep by (auto simp: emotionTimerCallback_eq stableOk_def)
    then show ?thesis using Some EmotionFetch assms by (simp add: fireTimer_def runCallback_def)
  next
    case CountdownTick
    have "stableOk acc (countdownTick (reschedule t s))"
      using keep by (auto simp: countdownTick_eq stableOk_def set_cancel)
    then show ?thesis using Some CountdownTick assms by (simp add: fireTimer_def runCallback_def)
  qed
qed

lemma stableOk_step:
  assumes "stableOk acc s"
  shows "stableOk (acc @ acceptedOf ev) (step s (now, ev))"
proof (cases ev)
  case (EmotionDetected e c)
  then show ?thesis using stableOk_sample [OF assms] by simp
next
  case (TimerFired h rnd)
  then show ?thesis using assms by (simp add: stableOk_fireTimer)
next
  case (FetchCompleted outcome)
  then show ?thesis using assms
    by (cases outcome) (auto simp: stableOk_def unmounted_eq set_cancel)
qed (use assms in \<open>auto simp: handler_eqs stableOk_def set_cancel\<close>)

lemma stableOk_run: "stableOk (acceptedEmotions evs) (run initial evs)"
proof (induction evs rule: rev_induct)
  case Nil
  show ?case by (simp add: stableOk_def acceptedEmotions_def run_def initial_def)
next
  case (snoc ev evs)
  obtain now e where ev: "ev = (now, e)" by (cases ev)
  show ?case using stableOk_step [OF snoc, of e now] ev
    by (simp add: acceptedEmotions_def run_def)
qed

text \<open>
  Claim C2. In every run from the mounted component, a fetch triggered by the detection
  handler for an emotion \<open>e\<close>, and already a pending trigger for \<open>e\<close>, is preceded by two
  accepted samples (confidence at least 0.9) labelled \<open>e\<close> with no accepted sample
  between them. A sample with confidence below 0.9 leaves the whole state, and so the
  run length and the remembered emotion, unchanged.
\<close>

theorem C2_stable_pair_before_fetch:
  "(\<forall>r \<in> set (requests (run initial evs)). \<forall>e. origin r = Stabilized e \<longrightarrow>
      hasStablePair e (acceptedEmotions evs)) \<and>
   (\<forall>t \<in> set (pending (run initial evs)). \<forall>e. callback t = EmotionFetch e \<longrightarrow>
      hasStablePair e (acceptedEmotions evs)) \<and>
   (confidence < 0.9 \<longrightarrow> handleEmotionDetected now emotion confidence s = s)"
  using stableOk_run [of evs] by (simp add: stableOk_def handleEmotionDetected_def)

theorem C2_stable_pair_before_fetch_witness:
  "map origin (requests (run initial happyAroundNoise)) = [Stabilized Happy] \<and>
   acceptedEmotions happyAroundNoise = [Happy, Happy] \<and>
   hasStablePair Happy (acceptedEmotions happyAroundNoise) \<and>
   handleEmotionDetected 10030 Sad 0.5 (run initial (take 2 happyAroundNoise))
     = run initial (take 2 happyAroundNoise)"
  using C2_stable_pair_before_fetch [of happyAroundNoise "0.5" 10030 Sad
      "run initial (take 2 happyAroundNoise)"]
  by (simp add: eval_simps acceptedEmotions_def happyAroundNoise_def)

section \<open>The cooldown between stabilised fetches\<close>

lemma spacedFrom_frame:
  "requests s' = requests s \<Longrightarrow> lastFetchTimeRef s' = lastFetchTimeRef s \<Longrightarrow>
   spacedFrom k s \<Longrightarrow> spacedFrom k s'"
  by (simp add: spacedFrom_def stabilizedSince_def)

lemma spacedFrom_manual:
  "requests s' = requests s @ [r] \<Longrightarrow> origin r = Manual \<Longrightarrow>
   lastFetchTimeRef s' = lastFetchTimeRef s \<Longrightarrow> spacedFrom k s \<Longrightarrow> spacedFrom k s'"
  by (simp add: spacedFrom_def stabilizedSince_def)

lemma spacedFrom_stabilized:
  assumes "spacedFrom k s" and "requests s' = requests s @ [r]" and "origin r \<noteq> Manual"
    and "issuedAt r = now" and "lastFetchTimeRef s' = now" and "lastFetchTimeRef s + 3000 \<le> now"
  shows "spacedFrom k s'"
proof -
  have k: "k \<le> length (requests s)" using assms(1) by (simp add: spacedFrom_def)
  have "stabilizedSince k s' = stabilizedSince k s @ [now]"
    using k assms(2-4) by (simp add: stabilizedSince_def)
  then show ?thesis using assms(1,2,5,6) k
    by (fastforce simp: spacedFrom_def sorted_wrt_append)
qed

lemma spacedFrom_fireTimer:
  assumes "timersOk s" and "coolOk now s" and "spacedFrom k s"
  shows "spacedFrom k (fireTimer now h rnd s)"
proof (cases "find (\<lambda>t. handle t = h) (pending s)")
  case None
  then show ?thesis using assms(3) by (simp add: fireTimer_def)
next
  case (Some t)
  then have t: "t \<in> set (pending s)" "handle t = h" using find_handle_Some by blast+
  show ?thesis
  proof (cases "now < due t")
    case True
    then show ?thesis using Some assms(3) by (simp add: fireTimer_def)
  next
    case False
    show ?thesis
    proof (cases "callback t")
      case (EmotionFetch e)
      then have "lastFetchTimeRef s + 3000 \<le> now"
        using assms(2) t False by (fastforce simp: coolOk_def)
      then have "spacedFrom k (emotionTimerCallback now rnd e (reschedule t s))"
        by (rule spacedFrom_stabilized [OF assms(3),
              where r = "\<lparr>keyword = getRandomKeyword rnd e, issuedAt = now,
                origin = Stabilized e\<rparr>", rotated 4])
           (simp_all add: emotionTimerCallback_eq reschedule_eq)
      then show ?thesis using Some False EmotionFetch
        by (simp add: fireTimer_def runCallback_def)
    next
      case CountdownTick
      have "spacedFrom k (countdownTick (reschedule t s))"
        by (rule spacedFrom_frame [OF _ _ assms(3)])
           (simp_all add: countdownTick_eq reschedule_eq)
      then show ?thesis using Some False CountdownTick
        by (simp add: fireTimer_def runCallback_def)
    qed
  qed
qed

lemma spacedFrom_handleSearch:
  assumes "spacedFrom k s"
  shows "spacedFrom k (handleSearch now s)"
proof (cases "trim (searchQuery s) \<noteq> [] \<and> isWellFormed (trim (searchQuery s))")
  case True
  let ?r = "\<lparr>keyword = trim (searchQuery s), issuedAt = now, origin = Manual\<rparr>"
  have "requests (handleSearch now s) = requests s @ [?r]"
    and "lastFetchTimeRef (handleSearch now s) = lastFetchTimeRef s"
    using True by (simp_all add: handleSearch_eq fetchVideos_eq)
  then show ?thesis using assms spacedFrom_manual [of "handleSearch now s" s ?r k] by simp
next
  case False
  have "requests (handleSearch now s) = requests s"
    and "lastFetchTimeRef (handleSearch now s) = lastFetchTimeRef s"
    using False by (auto simp: handleSearch_eq fetchVideos_eq)
  then show ?thesis using assms by (rule spacedFrom_frame)
qed

lemma spacedFrom_step:
  assumes "timersOk s" and "coolOk now s" and "spacedFrom k s" and "ev \<noteq> ScanAgain"
  shows "spacedFrom k (step s (now, ev))"
proof (cases ev)
  case (TimerFired h rnd)
  then show ?thesis using assms by (simp add: spacedFrom_fireTimer)
next
  case (FetchCompleted outcome)
  have "spacedFrom k (fetchVideosDone outcome s)"
    by (rule spacedFrom_frame [OF _ _ assms(3)]; cases outcome) (simp_all add: unmounted_eq)
  then show ?thesis using FetchCompleted by simp
next
  case SearchSubmitted
  then show ?thesis using assms(3) by (simp add: spacedFrom_handleSearch)
next
  case (EmotionDetected e c)
  have "spacedFrom k (handleEmotionDetected now e c s)"
    by (rule spacedFrom_frame [OF _ _ assms(3)]) (simp_all add: handleEmotionDetected_eq)
  then show ?thesis using EmotionDetected by simp
next
  case AcceptConsent
  have "spacedFrom k (handleAcceptConsent now s)"
    by (rule spacedFrom_frame [OF _ _ assms(3)])
       (simp_all add: handleAcceptConsent_def startCountdown_eq)
  then show ?thesis using AcceptConsent by simp
next
  case DeclineConsent
  have "spacedFrom k (handleDeclineConsent s)"
    by (rule spacedFrom_frame [OF _ _ assms(3)]) (simp_all add: handleDeclineConsent_def)
  then show ?thesis using DeclineConsent by simp
next
  case CameraStop
  have "spacedFrom k (handleCameraStop s)"
    by (rule spacedFrom_frame [OF _ _ assms(3)]) (simp_all add: handleCameraStop_eq)
  then show ?thesis using CameraStop by simp
next
  case (CameraError err)
  have "spacedFrom k (handleCameraError err s)"
    by (rule spacedFrom_frame [OF _ _ assms(3)]) (simp_all add: handleCameraError_def)
  then show ?thesis using CameraError by simp
next
  case ScanAgain
  then show ?thesis using assms(4) by simp
next
  case (QueryChanged q)
  have "spacedFrom k (s\<lparr>searchQuery := q\<rparr>)"
    by (rule spacedFrom_frame [OF _ _ assms(3)]) simp_all
  then show ?thesis using QueryChanged by simp
next
  case Unmount
  have "spacedFrom k (unmounted s)"
    by (rule spacedFrom_frame [OF _ _ assms(3)]) (simp_all add: unmounted_eq)
  then show ?thesis using Unmount by simp
qed

lemma spacedFrom_run_from:
  "timersOk s \<Longrightarrow> coolOk T s \<Longrightarrow> spacedFrom k s \<Longrightarrow> 0 \<le> T \<Longrightarrow> sorted (T # map fst evs) \<Longrightarrow>
   \<forall>ev \<in> set evs. snd ev \<noteq> ScanAgain \<Longrightarrow> spacedFrom k (run s evs)"
proof (induction evs arbitrary: s T)
  case Nil
  then show ?case by (simp add: run_def)
next
  case (Cons ev evs)
  obtain now e where ev: "ev = (now, e)" by (cases ev)
  have le: "T \<le> now" "0 \<le> now" using Cons.prems(4,5) ev by simp_all
  have c: "coolOk now s" using Cons.prems(2) le(1) by (rule coolOk_mono)
  have "spacedFrom k (run (step s (now, e)) evs)"
  proof (rule Cons.IH [where T = now])
    show "timersOk (step s (now, e))" using Cons.prems(1) by (rule timersOk_step)
    show "coolOk now (step s (now, e))" using Cons.prems(1) c le(2) by (intro coolOk_step) simp_all
    show "spacedFrom k (step s (now, e))"
      using Cons.prems(1,3,6) c ev by (intro spacedFrom_step) simp_all
    show "0 \<le> now" by fact
    show "sorted (now # map fst evs)" using Cons.prems(5) ev by simp
    show "\<forall>ev \<in> set evs. snd ev \<noteq> ScanAgain" using Cons.prems(6) by simp
  qed
  then show ?case using ev by (simp add: run_def)
qed

lemma sorted_last_ge0: "sorted (x # xs) \<Longrightarrow> (x::int) \<le> last (x # xs)"
  by (induction xs arbitrary: x) auto

lemma sorted_split_last:
  assumes "sorted ((0::int) # xs @ ys)"
  shows "sorted (0 # xs)" and "sorted (last (0 # xs) # ys)" and "0 \<le> last (0 # xs)"
proof -
  have s: "sorted ((0 # xs) @ ys)" using assms by simp
  show a: "sorted (0 # xs)" using s unfolding sorted_append by blast
  have "last (0 # xs) \<in> set (0 # xs)" by (rule last_in_set) simp
  then show "sorted (last (0 # xs) # ys)" using s unfolding sorted_append by auto
  show "0 \<le> last (0 # xs)" using a sorted_last_ge0 by blast
qed

lemma run_append: "run s (evs0 @ evs) = run (run s evs0) evs"
  by (simp add: run_def)

text \<open>
  Claim C3. Take any state the component can reach by a run with non-decreasing times,
  in particular the state right after mount and the state right after a restart by
  \<^verbatim>\<open>handleScanAgain\<close>, and let the run go on within the scan session (no further
  restart). Then any two fetches triggered by stabilisation since that state are at
  least 3000 ms apart, and once there is one, the last fetch time is the time of the
  latest of them. A stable accepted detection that arrives less than 3000 ms after the
  last fetch time sets the emotion on display and touches neither the timers nor the
  requests.
\<close>

theorem C3_cooldown:
  assumes "sorted (0 # map fst (evs0 @ evs))" and "\<forall>ev \<in> set evs. snd ev \<noteq> ScanAgain"
  shows "sorted_wrt (\<lambda>a b. a + 3000 \<le> b)
           (stabilizedSince (length (requests (run initial evs0))) (run initial (evs0 @ evs))) \<and>
         (stabilizedSince (length (requests (run initial evs0))) (run initial (evs0 @ evs)) \<noteq> [] \<longrightarrow>
            lastFetchTimeRef (run initial (evs0 @ evs))
              = last (stabilizedSince (length (requests (run initial evs0)))
                   (run initial (evs0 @ evs)))) \<and>
         (0.9 \<le> c \<and> stableEmotionRef s = Some e \<and> 1 \<le> stableCountRef s \<and>
          now - lastFetchTimeRef s < 3000 \<longrightarrow>
            currentEmotion (handleEmotionDetected now e c s) = Some e \<and>
            pending (handleEmotionDetected now e c s) = pending s \<and>
            emotionTimerRef (handleEmotionDetected now e c s) = emotionTimerRef s \<and>
            requests (handleEmotionDetected now e c s) = requests s)"
proof -
  let ?s0 = "run initial evs0"
  let ?T = "last (0 # map fst evs0)"
  have times: "sorted (0 # map fst evs0)" "sorted (?T # map fst evs)" "0 \<le> ?T"
    using sorted_split_last [of "map fst evs0" "map fst evs"] assms(1) by simp_all
  have sp: "spacedFrom (length (requests ?s0)) ?s0"
    by (simp add: spacedFrom_def stabilizedSince_def)
  have ok: "timersOk ?s0" by (rule timersOk_run)
  have cool: "coolOk ?T ?s0" using times(1) by (rule coolOk_run)
  have "spacedFrom (length (requests ?s0)) (run ?s0 evs)"
    by (rule spacedFrom_run_from [OF ok cool sp times(3) times(2) assms(2)])
  then show ?thesis
    by (auto simp: spacedFrom_def run_append handleEmotionDetected_eq observed_def)
qed

theorem C3_cooldown_witness:
  "stabilizedSince 0 (run initial (restartAfterFetch @ secondSession)) = [10366, 10966, 14300] \<and>
   length (requests (run initial restartAfterFetch)) = 1 \<and>
   stabilizedSince (length (requests (run initial restartAfterFetch)))
     (run initial (restartAfterFetch @ secondSession)) = [10966, 14300] \<and>
   lastFetchTimeRef (run initial (restartAfterFetch @ secondSession)) = 14300 \<and>
   currentEmotion (handleEmotionDetected 11000 Happy 0.95
      (run initial (stableHappy @ [(10366, TimerFired 2 0)]))) = Some Happy \<and>
   pending (handleEmotionDetected 11000 Happy 0.95
      (run initial (stableHappy @ [(10366, TimerFired 2 0)])))
     = pending (run initial (stableHappy @ [(10366, TimerFired 2 0)]))"
  using C3_cooldown [of restartAfterFetch secondSession "0.95"
      "run initial (stableHappy @ [(10366, TimerFired 2 0)])" Happy 11000]
  by (simp add: eval_simps stabilizedSince_def restartAfterFetch_def secondSession_def)

section \<open>The countdown\<close>

lemma find_handle_unique:
  assumes "distinct (map handle ts)" and "t \<in> set ts"
  shows "find (\<lambda>u. handle u = handle t) ts = Some t"
  using assms by (induction ts) (auto simp: rev_image_eqI)

text \<open>A tick runs the interval's callback after the interval is made due one period later.\<close>

lemma step_tick:
  assumes "timersOk s" and "isTick s (now, ev)"
  obtains t where "t \<in> set (pending s)" and "callback t = CountdownTick" and "due t \<le> now"
    and "countdownTimerRef s = Some (handle t)"
    and "step s (now, ev) = countdownTick (reschedule t s)"
proof -
  obtain h rnd where ev: "ev = TimerFired h rnd"
    using assms(2) by (cases ev) auto
  then obtain t where t: "t \<in> set (pending s)" "handle t = h" "due t \<le> now"
    and ref: "countdownTimerRef s = Some h"
    using assms(2) by auto
  have f: "find (\<lambda>u. handle u = h) (pending s) = Some t"
    using find_handle_unique [of "pending s" t] assms(1) t by (simp add: timersOk_def)
  have cb: "callback t = CountdownTick"
    using assms(1) t ref by (auto simp: timersOk_def)
  have "step s (now, ev) = countdownTick (reschedule t s)"
    using ev f t cb by (simp add: fireTimer_def runCallback_def)
  then show ?thesis using that t cb ref by simp
qed

lemma countdownTick_reschedule_fields:
  "scanCountdown (countdownTick (reschedule t s)) =
     (if scanCountdown s \<le> 1 then 0 else scanCountdown s - 1)"
  "isScanning (countdownTick (reschedule t s)) = (if scanCountdown s \<le> 1 then False else isScanning s)"
  "cameraActive (countdownTick (reschedule t s)) = (if scanCountdown s \<le> 1 then False else cameraActive s)"
  by (simp_all add: countdownTick_eq reschedule_eq)

text \<open>Any other background event leaves the countdown and the two flags alone.\<close>

lemma step_background_no_tick:
  assumes "timersOk s" and "background ev" and "\<not> isTick s (now, ev)"
  shows "scanCountdown (step s (now, ev)) = scanCountdown s \<and>
         isScanning (step s (now, ev)) = isScanning s \<and>
         cameraActive (step s (now, ev)) = cameraActive s"
proof (cases ev)
  case (EmotionDetected e c)
  then show ?thesis by (simp add: handleEmotionDetected_eq)
next
  case (TimerFired h rnd)
  show ?thesis
  proof (cases "find (\<lambda>t. handle t = h) (pending s)")
    case None
    then show ?thesis using TimerFired by (simp add: fireTimer_def)
  next
    case (Some t)
    then have t: "t \<in> set (pending s)" "handle t = h" using find_handle_Some by blast+
    show ?thesis
    proof (cases "now < due t")
      case True
      then show ?thesis using TimerFired Some by (simp add: fireTimer_def)
    next
      case False
      then have "countdownTimerRef s \<noteq> Some h" using assms(3) TimerFired t by auto
      then obtain e where "callback t = EmotionFetch e"
        using assms(1) t by (cases "callback t") (auto simp: timersOk_def)
      then show ?thesis using TimerFired Some False
        by (simp add: fireTimer_def runCallback_def emotionTimerCallback_eq reschedule_eq)
    qed
  qed
next
  case (FetchCompleted outcome)
  then show ?thesis by (cases outcome) (simp_all add: unmounted_eq)
qed (use assms(2) in simp_all)

lemma countdown_run:
  assumes "timersOk s" and "\<forall>ev \<in> set evs. background (snd ev)"
  shows "(int (ticksIn s evs) < scanCountdown s \<longrightarrow>
            scanCountdown (run s evs) = scanCountdown s - int (ticksIn s evs) \<and>
            isScanning (run s evs) = isScanning s \<and> cameraActive (run s evs) = cameraActive s) \<and>
         (scanCountdown s \<le> int (ticksIn s evs) \<and> 0 < ticksIn s evs \<longrightarrow>
            scanCountdown (run s evs) = 0 \<and> \<not> isScanning (run s evs) \<and>
            \<not> cameraActive (run s evs)) \<and>
         (ticksIn s evs = 0 \<longrightarrow>
            scanCountdown (run s evs) = scanCountdown s \<and>
            isScanning (run s evs) = isScanning s \<and> cameraActive (run s evs) = cameraActive s)"
  using assms
proof (induction evs arbitrary: s)
  case Nil
  then show ?case by (simp add: run_def)
next
  case (Cons ev evs)
  obtain now e where ev: "ev = (now, e)" by (cases ev)
  have bg: "background e" using Cons.prems(2) ev by simp
  have ok': "timersOk (step s ev)" using Cons.prems(1) by (rule timersOk_step)
  note IH = Cons.IH [OF ok', simplified]
  have rest: "\<forall>ev \<in> set evs. background (snd ev)" using Cons.prems(2) by simp
  have run: "run s (ev # evs) = run (step s ev) evs" by (simp add: run_def)
  show ?case
  proof (cases "isTick s ev")
    case True
    then obtain t where "step s ev = countdownTick (reschedule t s)"
      using step_tick [OF Cons.prems(1)] ev by metis
    then have f: "scanCountdown (step s ev) = (if scanCountdown s \<le> 1 then 0 else scanCountdown s - 1)"
      "isScanning (step s ev) = (if scanCountdown s \<le> 1 then False else isScanning s)"
      "cameraActive (step s ev) = (if scanCountdown s \<le> 1 then False else cameraActive s)"
      by (simp_all add: countdownTick_reschedule_fields)
    show ?thesis using IH [OF rest] True f unfolding run
      by (cases "scanCountdown s \<le> 1"; cases "ticksIn (step s ev) evs = 0") auto
  next
    case False
    then have "scanCountdown (step s ev) = scanCountdown s \<and>
         isScanning (step s ev) = isScanning s \<and> cameraActive (step s ev) = cameraActive s"
      using step_background_no_tick [OF Cons.prems(1) bg] ev by simp
    then show ?thesis using IH [OF rest] False unfolding run by simp
  qed
qed


lemma ticksIn_pos_nonempty: "0 < ticksIn s evs \<Longrightarrow> evs \<noteq> []"
  by (cases evs) simp_all

lemma sorted_last_ge: "sorted (x # xs) \<Longrightarrow> (x::int) \<le> last (x # xs)"
  by (induction xs arbitrary: x) auto

lemma tick_due_later:
  assumes "timersOk s" and "t \<in> set (pending s)" and "callback t = CountdownTick"
    and "\<forall>u \<in> set (pending s). callback u = CountdownTick \<longrightarrow> D \<le> due u"
  shows "\<forall>u \<in> set (pending (countdownTick (reschedule t s))).
           callback u = CountdownTick \<longrightarrow> D + 1000 \<le> due u"
proof -
  have per: "period t = Some 1000" and ref: "countdownTimerRef s = Some (handle t)"
    using assms(1-3) by (auto simp: timersOk_def)
  have same: "handle u = handle t" if "u \<in> set (pending s)" "callback u = CountdownTick" for u
    using assms(1) that ref by (auto simp: timersOk_def)
  have "\<forall>u \<in> set (pending (reschedule t s)). callback u = CountdownTick \<longrightarrow> D + 1000 \<le> due u"
    using per assms(4) same by (fastforce simp: reschedule_eq)
  then show ?thesis by (auto simp: countdownTick_eq set_cancel)
qed

lemma background_due_kept:
  assumes "timersOk s" and "background ev" and "\<not> isTick s (now, ev)"
    and "\<forall>u \<in> set (pending s). callback u = CountdownTick \<longrightarrow> D \<le> due u"
  shows "\<forall>u \<in> set (pending (step s (now, ev))). callback u = CountdownTick \<longrightarrow> D \<le> due u"
proof (cases ev)
  case (EmotionDetected e c)
  then show ?thesis using assms(4) by (auto simp: handleEmotionDetected_eq set_cancel)
next
  case (TimerFired h rnd)
  show ?thesis
  proof (cases "find (\<lambda>t. handle t = h) (pending s)")
    case None
    then show ?thesis using TimerFired assms(4) by (simp add: fireTimer_def)
  next
    case (Some t)
    then have t: "t \<in> set (pending s)" "handle t = h" using find_handle_Some by blast+
    show ?thesis
    proof (cases "now < due t")
      case True
      then show ?thesis using TimerFired Some assms(4) by (simp add: fireTimer_def)
    next
      case False
      then have "countdownTimerRef s \<noteq> Some h" using assms(3) TimerFired t by auto
      then obtain e where "callback t = EmotionFetch e" and "period t = None"
        using assms(1) t by (cases "callback t") (auto simp: timersOk_def)
      then show ?thesis using TimerFired Some False assms(4)
        by (auto simp: fireTimer_def runCallback_def emotionTimerCallback_eq reschedule_eq
            set_cancel)
    qed
  qed
next
  case (FetchCompleted outcome)
  then show ?thesis using assms(4) by (cases outcome) (auto simp: unmounted_eq set_cancel)
qed (use assms(2,4) in simp_all)

lemma ticks_spaced:
  assumes "timersOk s" and "\<forall>ev \<in> set evs. background (snd ev)" and "sorted (map fst evs)"
    and "\<forall>u \<in> set (pending s). callback u = CountdownTick \<longrightarrow> D \<le> due u"
  shows "0 < ticksIn s evs \<longrightarrow> D + 1000 * (int (ticksIn s evs) - 1) \<le> last (map fst evs)"
  using assms
proof (induction evs arbitrary: s D)
  case Nil
  then show ?case by simp
next
  case (Cons ev evs)
  obtain now e where ev: "ev = (now, e)" by (cases ev)
  have bg: "background e" using Cons.prems(2) ev by simp
  have ok': "timersOk (step s ev)" using Cons.prems(1) by (rule timersOk_step)
  have rest: "\<forall>ev \<in> set evs. background (snd ev)" "sorted (map fst evs)"
    using Cons.prems(2,3) by simp_all
  have lastge: "now \<le> last (map fst (ev # evs))"
    using sorted_last_ge [of now "map fst evs"] Cons.prems(3) ev by simp
  show ?case
  proof (cases "isTick s ev")
    case True
    then obtain t where t: "t \<in> set (pending s)" "callback t = CountdownTick" "due t \<le> now"
      and st: "step s ev = countdownTick (reschedule t s)"
      using step_tick [OF Cons.prems(1)] ev by metis
    have D: "D \<le> now" using Cons.prems(4) t by fastforce
    have later: "\<forall>u \<in> set (pending (step s ev)). callback u = CountdownTick \<longrightarrow> D + 1000 \<le> due u"
      unfolding st using Cons.prems(1) t(1,2) Cons.prems(4) by (rule tick_due_later)
    note IH = Cons.IH [OF ok' rest later]
    show ?thesis
    proof (cases "ticksIn (step s ev) evs = 0")
      case True
      then show ?thesis using \<open>isTick s ev\<close> D lastge by simp
    next
      case False
      then have "evs \<noteq> []" using ticksIn_pos_nonempty by blast
      then show ?thesis using IH False \<open>isTick s ev\<close> by simp
    qed
  next
    case False
    have kept: "\<forall>u \<in> set (pending (step s ev)). callback u = CountdownTick \<longrightarrow> D \<le> due u"
      using background_due_kept [OF Cons.prems(1) bg _ Cons.prems(4)] False ev by simp
    note IH = Cons.IH [OF ok' rest kept]
    show ?thesis
    proof (cases "ticksIn (step s ev) evs = 0")
      case True
      then show ?thesis using False by simp
    next
      case nz: False
      then have "evs \<noteq> []" using ticksIn_pos_nonempty by blast
      then show ?thesis using IH nz False by simp
    qed
  qed
qed

lemma startCountdown_due:
  assumes "timersOk s"
  shows "\<forall>u \<in> set (pending (startCountdown t0 s)). callback u = CountdownTick \<longrightarrow> t0 + 1000 \<le> due u"
  using assms by (auto simp: startCountdown_eq set_cancel timersOk_def)

text \<open>The start arms the interval: pending, due after 1000 ms, with period 1000 ms.\<close>

lemma startCountdown_arms_interval:
  "\<exists>t \<in> set (pending (startCountdown t0 s)).
     callback t = CountdownTick \<and> due t = t0 + 1000 \<and> period t = Some 1000 \<and>
     countdownTimerRef (startCountdown t0 s) = Some (handle t)"
  by (simp add: startCountdown_eq)

text \<open>
  The countdown by itself. Start a scan (consent accepted, or scan again) at time \<open>t0\<close> in
  any reachable state and let only background events follow: detections, timers run by
  the runtime, and fetches starting and ending in any order. The start arms the
  interval. After fewer than 5 ticks the countdown is 5 minus their number, and the
  session is scanning with \<^verbatim>\<open>cameraActive\<close> set; with the fifth tick the countdown is 0
  and both flags are cleared. The \<open>n\<close>-th tick comes no earlier than \<open>n\<close> seconds after the
  start. In every reachable state, scanning implies a positive countdown.
\<close>

lemma countdown_after_start:
  assumes "ev0 = AcceptConsent \<or> ev0 = ScanAgain"
    and "\<forall>ev \<in> set evs. background (snd ev)" and "sorted (map fst evs)"
  shows "(\<exists>t \<in> set (pending (step (run initial evs0) (t0, ev0))).
            callback t = CountdownTick \<and> due t = t0 + 1000 \<and> period t = Some 1000 \<and>
            countdownTimerRef (step (run initial evs0) (t0, ev0)) = Some (handle t)) \<and>
         (ticksIn (step (run initial evs0) (t0, ev0)) evs < 5 \<longrightarrow>
            scanCountdown (run (step (run initial evs0) (t0, ev0)) evs)
              = 5 - int (ticksIn (step (run initial evs0) (t0, ev0)) evs) \<and>
            isScanning (run (step (run initial evs0) (t0, ev0)) evs) \<and>
            cameraActive (run (step (run initial evs0) (t0, ev0)) evs)) \<and>
         (5 \<le> ticksIn (step (run initial evs0) (t0, ev0)) evs \<longrightarrow>
            scanCountdown (run (step (run initial evs0) (t0, ev0)) evs) = 0 \<and>
            \<not> isScanning (run (step (run initial evs0) (t0, ev0)) evs) \<and>
            \<not> cameraActive (run (step (run initial evs0) (t0, ev0)) evs)) \<and>
         (0 < ticksIn (step (run initial evs0) (t0, ev0)) evs \<longrightarrow>
            t0 + 1000 * int (ticksIn (step (run initial evs0) (t0, ev0)) evs)
              \<le> last (map fst evs)) \<and>
         (isScanning (run initial evs') \<longrightarrow> 0 < scanCountdown (run initial evs'))"
proof -
  let ?s0 = "run initial evs0"
  let ?s1 = "step ?s0 (t0, ev0)"
  have ok0: "timersOk ?s0" by (rule timersOk_run)
  have ok1: "timersOk ?s1" using ok0 by (rule timersOk_step)
  have start: "scanCountdown ?s1 = 5" "isScanning ?s1" "cameraActive ?s1"
    using assms(1) by (auto simp: handleAcceptConsent_def handleScanAgain_def startCountdown_eq)
  have armed: "\<exists>t \<in> set (pending ?s1).
      callback t = CountdownTick \<and> due t = t0 + 1000 \<and> period t = Some 1000 \<and>
      countdownTimerRef ?s1 = Some (handle t)"
    using assms(1) startCountdown_arms_interval
    by (auto simp: handleAcceptConsent_def handleScanAgain_def)
  have due: "\<forall>u \<in> set (pending ?s1). callback u = CountdownTick \<longrightarrow> t0 + 1000 \<le> due u"
  proof -
    have "timersOk (?s0\<lparr>showConsent := False, cameraActive := True, isScanning := True\<rparr>)"
      and "timersOk (?s0\<lparr>cameraError := None, cameraActive := True, isScanning := True,
              currentEmotion := None, searchKeyword := None, videos := [],
              hasLoadedVideos := False, lastSearchedEmotion := None,
              stableEmotionRef := None, stableCountRef := 0, lastFetchTimeRef := 0\<rparr>)"
      using ok0 by (simp_all add: timersOk_def)
    then show ?thesis
      using assms(1) startCountdown_due
      by (auto simp: handleAcceptConsent_def handleScanAgain_def)
  qed
  have "0 < ticksIn ?s1 evs \<longrightarrow> t0 + 1000 * int (ticksIn ?s1 evs) \<le> last (map fst evs)"
    using ticks_spaced [OF ok1 assms(2,3) due] by simp
  moreover have "isScanning (run initial evs') \<longrightarrow> 0 < scanCountdown (run initial evs')"
    using scanOk_run [of evs'] by (simp add: scanOk_def)
  ultimately show ?thesis
    using countdown_run [OF ok1 assms(2)] start armed by auto
qed

subsection \<open>The camera at the end of the countdown\<close>

lemma liveStreams_commit [simp]: "liveStreams (commit p s) = liveStreams p"
  by (simp add: commit_def)

text \<open>No event of the component but the click on Stop stops the tracks of a stream.\<close>

lemma only_stopCamera_stops_tracks:
  "ev \<noteq> CameraStop \<Longrightarrow> liveStreams (pageStep p (now, OfHome ev)) = liveStreams p"
  by (cases ev) simp_all

lemma stopCamera_stops_tracks:
  "feed p = Some f \<Longrightarrow> streamRef f = Some i \<Longrightarrow>
   i \<notin> set (liveStreams (pageStep p (now, OfHome CameraStop)))"
  by (simp add: stopCamera_def)

text \<open>
  Claim C6. The countdown started at 5 reaches 0 with the fifth tick and the session
  then leaves the scanning state, whatever fetches are under way (lemma
  \<open>countdown_after_start\<close>). The camera is meant to be deactivated at that point, as it is
  by the Stop button, whose \<^verbatim>\<open>stopCamera\<close> stops the tracks of the stream. The last
  tick only clears \<^verbatim>\<open>cameraActive\<close>: the page drops the feed from its elements, the feed
  unmounts, and its cleanup cancels the animation frame and leaves the stream alone.
  With consent at 100000 ms, models loaded and the stream granted, the five ticks end the
  scan with the feed unmounted and stream 0 still live; and a frame that was in flight
  at the last tick is still delivered and handled, here arming a debounce trigger after
  the scan has ended. The same start followed by a click on Stop leaves no live stream.
\<close>

theorem C6_camera_stays_on_at_zero:
  "scanCountdown (homeState (pageRun initialPage scanWithCamera)) = 0 \<and>
   \<not> isScanning (homeState (pageRun initialPage scanWithCamera)) \<and>
   \<not> cameraActive (homeState (pageRun initialPage scanWithCamera)) \<and>
   feed (pageRun initialPage scanWithCamera) = None \<and>
   liveStreams (pageRun initialPage scanWithCamera) = [0] \<and>
   emotionTriggers (homeState (pageRun initialPage
      (scanWithCamera @ [(105010, OfHome (EmotionDetected Happy 0.92))])))
     = [(Happy, 105310)] \<and>
   liveStreams (pageRun initialPage (take 3 scanWithCamera)) = [0] \<and>
   liveStreams (pageRun initialPage (take 3 scanWithCamera @ [(100900, OfHome CameraStop)]))
     = []"
  by (simp add: pageRun_def initialPage_def commit_def rendersFeed_def stopCamera_def
      scanWithCamera_def eval_simps)

section \<open>Manual search\<close>

text \<open>
  Claim C7, as stated, fails in two ways. The fetch is for the trimmed query, not for
  exactly the entered one: while scanning, the entered query \<open>test query\<close> with a space
  before it and two after it is fetched as \<open>test query\<close>. And a query with a lone surrogate
  cannot be encoded for the URL: submitting \<open>song\<close>, a space and the code unit D83D sends
  no request at all and sets the error cell, while the session still leaves scanning.
\<close>

theorem C7_trimmed_or_unencodable_counterexample:
  "map keyword (requests (step
      (run initial (stableHappy @ [(10100, QueryChanged (js '' test query  ''))]))
      (10200, SearchSubmitted)))
     \<noteq> [searchQuery (run initial (stableHappy @ [(10100, QueryChanged (js '' test query  ''))]))] \<and>
   requests (step
      (run initial (stableHappy @ [(10100, QueryChanged (js ''song '' @ [0xD83D]))]))
      (10200, SearchSubmitted)) = [] \<and>
   videoError (step
      (run initial (stableHappy @ [(10100, QueryChanged (js ''song '' @ [0xD83D]))]))
      (10200, SearchSubmitted)) = Some uriMalformed \<and>
   \<not> isScanning (step
      (run initial (stableHappy @ [(10100, QueryChanged (js ''song '' @ [0xD83D]))]))
      (10200, SearchSubmitted))"
  by (simp add: eval_simps js_def trim_def isWhiteSpace_def isHighSurrogate_def
      isLowSurrogate_def)

text \<open>
  Claim C7, amended. In every state the component can reach, a manual search while
  scanning whose query is not empty after trimming (the page submits no other) goes
  past the stabiliser: whatever the cooldown and the pending debounce trigger are, it
  issues in the same step one fetch for exactly the trimmed query, provided the trimmed
  query is well formed; when it has a lone surrogate no request is sent and the error
  cell is set. In both cases the session leaves the scanning state, the camera flag is
  cleared, and the countdown is abandoned: no countdown timer stays pending and the
  count is left where it was. The pending debounce triggers and the last fetch time
  are as before.
\<close>

theorem C7_manual_search:
  assumes "s = run initial evs" and "isScanning s" and "trim (searchQuery s) \<noteq> []"
  shows "(isWellFormed (trim (searchQuery s)) \<longrightarrow>
            requests (step s (now, SearchSubmitted)) =
              requests s @ [\<lparr>keyword = trim (searchQuery s), issuedAt = now, origin = Manual\<rparr>]) \<and>
         (\<not> isWellFormed (trim (searchQuery s)) \<longrightarrow>
            requests (step s (now, SearchSubmitted)) = requests s \<and>
            videoError (step s (now, SearchSubmitted)) = Some uriMalformed) \<and>
         searchKeyword (step s (now, SearchSubmitted)) = Some (trim (searchQuery s)) \<and>
         \<not> isScanning (step s (now, SearchSubmitted)) \<and>
         \<not> cameraActive (step s (now, SearchSubmitted)) \<and>
         (\<forall>t \<in> set (pending (step s (now, SearchSubmitted))). callback t \<noteq> CountdownTick) \<and>
         scanCountdown (step s (now, SearchSubmitted)) = scanCountdown s \<and>
         emotionTriggers (step s (now, SearchSubmitted)) = emotionTriggers s \<and>
         lastFetchTimeRef (step s (now, SearchSubmitted)) = lastFetchTimeRef s"
proof -
  have ok: "timersOk s" "scanOk s" using assms(1) by (simp_all add: timersOk_run scanOk_run)
  then have cam: "cameraActive s" using assms(2) by (simp add: scanOk_def)
  have "emotionTriggers (step s (now, SearchSubmitted)) = emotionTriggers s"
    using ok(1) cam assms(3)
    by (simp add: handleSearch_eq emotionTriggers_def triggersOf_cancel_countdown)
  moreover have "\<forall>t \<in> set (pending (step s (now, SearchSubmitted))). callback t \<noteq> CountdownTick"
    using ok(1) cam assms(3) by (auto simp: handleSearch_eq set_cancel timersOk_def)
  ultimately show ?thesis using cam assms(3)
    by (simp add: handleSearch_eq fetchVideos_eq)
qed

theorem C7_manual_search_witness:
  "requests (step (run initial (stableHappy @ [(10100, QueryChanged (js '' test query  ''))]))
      (10200, SearchSubmitted))
     = [\<lparr>keyword = js ''test query'', issuedAt = 10200, origin = Manual\<rparr>] \<and>
   \<not> isScanning (step (run initial (stableHappy @ [(10100, QueryChanged (js '' test query  ''))]))
      (10200, SearchSubmitted)) \<and>
   map callback (pending (step (run initial (stableHappy @ [(10100, QueryChanged (js '' test query  ''))]))
      (10200, SearchSubmitted))) = [EmotionFetch Happy] \<and>
   videoError (step
      (run initial (stableHappy @ [(10100, QueryChanged (js ''song '' @ [0xD83D]))]))
      (10200, SearchSubmitted)) = Some uriMalformed"
  using C7_manual_search [of "run initial (stableHappy @ [(10100, QueryChanged (js '' test query  ''))])"
     "stableHappy @ [(10100, QueryChanged (js '' test query  ''))]" 10200]
    C7_manual_search [of "run initial (stableHappy @ [(10100, QueryChanged (js ''song '' @ [0xD83D]))])"
     "stableHappy @ [(10100, QueryChanged (js ''song '' @ [0xD83D]))]" 10200]
  by (simp add: eval_simps js_def trim_def isWhiteSpace_def isHighSurrogate_def
      isLowSurrogate_def)

section \<open>The debounce of a stable emotion\<close>




section \<open>Timers on leaving the scanning state\<close>

text \<open>
  Claim C8. All timers are meant to be cancelled on every transition out of scanning.
  \<^verbatim>\<open>handleCameraStop\<close> and the unmount cleanup cancel both (lemma
  \<open>stop_and_unmount_cancel_all\<close>), but \<^verbatim>\<open>handleSearch\<close> and the countdown reaching 0
  cancel the countdown only. With a debounce trigger for happy pending, a manual search
  for \<open>test query\<close> leaves scanning with the trigger still pending; when it runs it
  replaces the search keyword and issues a fetch for happy. Likewise a trigger set just
  before the fifth tick survives the end of the countdown and fires afterwards.
\<close>

theorem C8_debounce_survives_search_and_countdown_end:
  "emotionTriggers (run initial (stableHappy @
      [(10100, QueryChanged (js ''test query'')), (10200, SearchSubmitted)]))
     = [(Happy, 10366)] \<and>
   \<not> isScanning (run initial (stableHappy @
      [(10100, QueryChanged (js ''test query'')), (10200, SearchSubmitted)])) \<and>
   searchKeyword (run initial (stableHappy @
      [(10100, QueryChanged (js ''test query'')), (10200, SearchSubmitted)]))
     = Some (js ''test query'') \<and>
   searchKeyword (run initial (stableHappy @
      [(10100, QueryChanged (js ''test query'')), (10200, SearchSubmitted),
       (10366, TimerFired 2 0)]))
     = Some (js ''romantic hindi songs 2024'') \<and>
   map origin (requests (run initial (stableHappy @
      [(10100, QueryChanged (js ''test query'')), (10200, SearchSubmitted),
       (10366, TimerFired 2 0)])))
     = [Manual, Stabilized Happy] \<and>
   emotionTriggers (run initial
      [(0, AcceptConsent), (1000, TimerFired 1 0), (2000, TimerFired 1 0),
       (3000, TimerFired 1 0), (4000, TimerFired 1 0), (4800, EmotionDetected Happy 0.95),
       (4900, EmotionDetected Happy 0.92), (5000, TimerFired 1 0)])
     = [(Happy, 5200)] \<and>
   \<not> isScanning (run initial
      [(0, AcceptConsent), (1000, TimerFired 1 0), (2000, TimerFired 1 0),
       (3000, TimerFired 1 0), (4000, TimerFired 1 0), (4800, EmotionDetected Happy 0.95),
       (4900, EmotionDetected Happy 0.92), (5000, TimerFired 1 0)]) \<and>
   map origin (requests (run initial
      [(0, AcceptConsent), (1000, TimerFired 1 0), (2000, TimerFired 1 0),
       (3000, TimerFired 1 0), (4000, TimerFired 1 0), (4800, EmotionDetected Happy 0.95),
       (4900, EmotionDetected Happy 0.92), (5000, TimerFired 1 0), (5200, TimerFired 2 0)]))
     = [Stabilized Happy]"
  by (simp add: eval_simps js_def trim_def isWhiteSpace_def getRandomKeyword_def
      isHighSurrogate_def isLowSurrogate_def)

end
